theory Spec2Isabelle
  imports Main
begin

section \<open>The run context of the job execution engine (pkg/runner/run\_context.go)\<close>

text \<open>
  Go strings are byte sequences: a \<^typ>\<open>string\<close> is the list of the bytes. A Go map
  is a partial function; a nil map or a nil interface value is \<^term>\<open>None\<close> where the code
  tests for it. A Go \<open>error\<close> result is an \<open>err option\<close> (\<^term>\<open>None\<close> is the nil
  error); a run-time panic is the value \<open>Panic\<close>.
  The pointers \<open>rc\<close>, \<open>rc.Config\<close>, \<open>rc.Run\<close>, the job \<open>rc.Run.Job()\<close> and the
  evaluator \<open>rc.ExprEval\<close> are taken as set: the runner binds them when it builds the
  run context, and the code never tests them.
\<close>

datatype err = Err string | Panic string

subsection \<open>Data\<close>

text \<open>\<open>type stepResult struct { Success bool; Outputs map[string]string }\<close>\<close>

record stepResult =
  Success :: bool
  Outputs :: "(string \<rightharpoonup> string) option"

text \<open>
  The engine-wide \<open>Config\<close>: the struct is declared in another file of the package;
  these are the fields run\_context.go reads or writes.
\<close>

record Config =
  ConfigEnv :: "string \<rightharpoonup> string"
  ContainerDaemonSocket :: string
  BindWorkdir :: bool
  Workdir :: string
  LogOutput :: bool
  Secrets :: "string \<rightharpoonup> string"
  Privileged :: bool
  UsernsMode :: string
  ContainerArchitecture :: string
  ForcePull :: bool
  ContainerCapAdd :: "string list"
  ContainerCapDrop :: "string list"
  UseGitIgnore :: bool
  ReuseContainers :: bool
  Platforms :: "string \<rightharpoonup> string"
  Actor :: string
  EventName :: string
  GitHubInstance :: string
  DefaultBranch :: string
  ForceRemoteCheckout :: bool

text \<open>
  \<open>model.Step\<close>, \<open>model.Job\<close> and \<open>model.Run\<close> (package model): the fields and
  getters the run context uses. \<open>JobEnvironment\<close> is \<open>Job().Environment()\<close>,
  \<open>RunsOn\<close> is \<open>Job().RunsOn()\<close> (a nil slice is the empty list: the code only ranges
  over it), \<open>WorkflowName\<close> and \<open>WorkflowEnv\<close> are \<open>Run.Workflow.Name\<close> and
  \<open>Run.Workflow.Env\<close>.
\<close>

record Step =
  ID :: string
  IfValue :: string
  ContinueOnError :: bool

record Job =
  JobEnvironment :: "string \<rightharpoonup> string"
  RunsOn :: "string list"
  Steps :: "Step list"

record Run =
  WorkflowName :: string
  WorkflowEnv :: "string \<rightharpoonup> string"
  RunJob :: Job

text \<open>
  The \<open>ExpressionEvaluator\<close> interface (declared elsewhere in the package, implemented
  by the expression engine): its three methods as functions.
\<close>

record ExpressionEvaluator =
  Evaluate :: "string \<Rightarrow> err + string"
  Interpolate :: "string \<Rightarrow> string"
  InterpolateWithStringCheck :: "string \<Rightarrow> string \<times> bool"

text \<open>
  A context carries an optional logger binding, the cancellation state and whatever
  other values were bound to it.
\<close>

record Context =
  LoggerBinding :: "string option"
  Cancelled :: bool
  Bindings :: "(string \<times> string) list"

text \<open>
  The handle of the job container (\<open>container.Container\<close>). The backend is an external
  collaborator: an operation of the handle is modelled by the error it reports (the
  message, or \<^term>\<open>None\<close> when it succeeds);
  \<open>IsHostExecutor\<close> is the dynamic type test \<open>rc.JobContainer.(*container.HostExecutor)\<close>.
\<close>

record Container =
  IsHostExecutor :: bool
  RemoveOutcome :: "string option"
  CloseOutcome :: "string option"

text \<open>
  \<open>type RunContext struct\<close>. The fields \<open>Matrix\<close>, \<open>ExtraPath\<close>, \<open>OutputMappings\<close>,
  \<open>Local\<close>, \<open>Composite\<close>, \<open>Inputs\<close> and \<open>Parent\<close> are read by none of the operations
  below and are left out.
\<close>

record RunContext =
  GithubContextBase :: "string option"
  Name :: string
  Config :: Config
  Run :: Run
  EventJSON :: string
  Env :: "(string \<rightharpoonup> string) option"
  CurrentStep :: string
  StepResults :: "(string \<rightharpoonup> stepResult) option"
  ExprEval :: ExpressionEvaluator
  JobContainer :: "Container option"
  JobName :: string
  actPath :: string
  ActionPath :: string
  ActionRef :: string
  ActionRepository :: string

subsection \<open>Step results\<close>

text \<open>
  \<open>InitStepResults\<close>: a fresh map, then \<open>rc.StepResults[keys[i]] = &stepResult{Success: true}\<close>
  for \<open>i = 0 .. len(keys) - 1\<close>. The composite literal leaves \<open>Outputs\<close> nil.
\<close>

fun InitStepResults_loop :: "string list \<Rightarrow> (string \<rightharpoonup> stepResult) \<Rightarrow> (string \<rightharpoonup> stepResult)" where
  "InitStepResults_loop [] m = m"
| "InitStepResults_loop (k # keys) m =
     InitStepResults_loop keys (m(k \<mapsto> \<lparr>Success = True, Outputs = None\<rparr>))"

definition InitStepResults :: "RunContext \<Rightarrow> string list \<Rightarrow> RunContext" where
  "InitStepResults rc keys = rc\<lparr>StepResults := Some (InitStepResults_loop keys Map.empty)\<rparr>"

text \<open>\<open>getStepsContext\<close>: a nil \<open>StepResults\<close> becomes the empty map.\<close>

definition getStepsContext :: "RunContext \<Rightarrow> RunContext" where
  "getStepsContext rc =
     (case StepResults rc of
        None \<Rightarrow> rc\<lparr>StepResults := Some Map.empty\<rparr>
      | Some m \<Rightarrow> rc)"

subsection \<open>The environment of the job\<close>

text \<open>
  \<open>mergeMaps\<close>: every map in turn is copied into the result, key by key, so a later
  map overwrites an earlier one.
\<close>

fun mergeMaps_loop :: "(string \<rightharpoonup> string) list \<Rightarrow> (string \<rightharpoonup> string) \<Rightarrow> (string \<rightharpoonup> string)" where
  "mergeMaps_loop [] rtnMap = rtnMap"
| "mergeMaps_loop (m # maps) rtnMap = mergeMaps_loop maps (rtnMap ++ m)"

definition mergeMaps :: "(string \<rightharpoonup> string) list \<Rightarrow> (string \<rightharpoonup> string)" where
  "mergeMaps maps = mergeMaps_loop maps Map.empty"

text \<open>
  \<open>GetEnv\<close> returns the map and leaves it in \<open>rc.Env\<close>: the result is the pair of the
  returned map and the run context after the call.
\<close>

definition GetEnv :: "RunContext \<Rightarrow> (string \<rightharpoonup> string) \<times> RunContext" where
  "GetEnv rc =
     (let env0 = (case Env rc of
                    None \<Rightarrow> mergeMaps [ConfigEnv (Config rc), WorkflowEnv (Run rc),
                                        JobEnvironment (RunJob (Run rc))]
                  | Some e \<Rightarrow> e);
          env1 = env0(''ACT'' \<mapsto> ''true'')
      in (env1, rc\<lparr>Env := Some env1\<rparr>))"

subsection \<open>Strings and the regular expressions of \<open>createContainerName\<close>\<close>

text \<open>The character classes \<open>[0-9]\<close> and \<open>[a-zA-Z0-9]\<close>.\<close>

definition isDigit :: "char \<Rightarrow> bool" where
  "isDigit c = (c \<in> set ''0123456789'')"

definition isAlnum :: "char \<Rightarrow> bool" where
  "isAlnum c = (c \<in> set ''abcdefghijklmnopqrstuvwxyzABCDEFGHIJKLMNOPQRSTUVWXYZ0123456789'')"

definition byte :: "char \<Rightarrow> nat" where
  "byte c = of_char c"

definition inRange :: "nat \<Rightarrow> nat \<Rightarrow> char \<Rightarrow> bool" where
  "inRange lo hi c = (lo \<le> byte c \<and> byte c \<le> hi)"

text \<open>
  The regexp package reads its input rune by rune with \<open>utf8.DecodeRuneInString\<close>:
  \<open>runeLen s\<close> is the number of bytes the first rune of a non-empty \<open>s\<close> takes. An ASCII
  byte is one rune; a lead byte \<open>0xC2..0xDF\<close>, \<open>0xE0..0xEF\<close>, \<open>0xF0..0xF4\<close> followed by
  the continuation bytes UTF-8 accepts is a rune of 2, 3 or 4 bytes; any other byte is an
  encoding error of width 1.
\<close>

fun runeLen :: "string \<Rightarrow> nat" where
  "runeLen [] = 0"
| "runeLen (b0 # s) =
     (if byte b0 < 128 then 1
      else if inRange 194 223 b0 then
        (case s of b1 # _ \<Rightarrow> if inRange 128 191 b1 then 2 else 1 | _ \<Rightarrow> 1)
      else if inRange 224 239 b0 then
        (case s of
           b1 # b2 # _ \<Rightarrow>
             if inRange (if byte b0 = 224 then 160 else 128) (if byte b0 = 237 then 159 else 191) b1
                \<and> inRange 128 191 b2
             then 3 else 1
         | _ \<Rightarrow> 1)
      else if inRange 240 244 b0 then
        (case s of
           b1 # b2 # b3 # _ \<Rightarrow>
             if inRange (if byte b0 = 240 then 144 else 128) (if byte b0 = 244 then 143 else 191) b1
                \<and> inRange 128 191 b2 \<and> inRange 128 191 b3
             then 4 else 1
         | _ \<Rightarrow> 1)
      else 1)"

text \<open>
  \<open>regexp.MustCompile("[^a-zA-Z0-9]").ReplaceAllString(part, "-")\<close>: every rune that is not
  an ASCII letter or digit (an encoding error included) becomes one hyphen.
\<close>

function ReplaceAllString_nonAlnum :: "string \<Rightarrow> string" where
  "ReplaceAllString_nonAlnum [] = []"
| "ReplaceAllString_nonAlnum (c # cs) =
     (if isAlnum c then c # ReplaceAllString_nonAlnum cs
      else CHR ''-'' # ReplaceAllString_nonAlnum (drop (runeLen (c # cs)) (c # cs)))"
  by pat_completeness auto
termination
proof (relation "measure length")
  show "wf (measure length)" by simp
next
  fix c :: char and cs
  show "(cs, c # cs) \<in> measure length" by simp
next
  fix c :: char and cs
  have "0 < runeLen (c # cs)" by (auto split: list.splits)
  then show "(drop (runeLen (c # cs)) (c # cs), c # cs) \<in> measure length"
    by simp
qed

declare runeLen.simps [simp del]

text \<open>
  \<open>regexp.MustCompile("-[0-9]+$").FindStringSubmatch(part)\<close>: the match is the last
  hyphen of \<open>part\<close> with the digits after it, when at least one digit and nothing else
  follows that hyphen; \<^term>\<open>None\<close> is the empty result (\<open>len(num) = 0\<close>), \<open>Some\<close> holds
  \<open>num[0]\<close>.
\<close>

definition FindStringSubmatch_num :: "string \<Rightarrow> string option" where
  "FindStringSubmatch_num part =
     (let ds = takeWhile isDigit (rev part)
      in case dropWhile isDigit (rev part) of
           [] \<Rightarrow> None
         | c # _ \<Rightarrow> if c = CHR ''-'' \<and> ds \<noteq> [] then Some (CHR ''-'' # rev ds) else None)"

definition trimToLen :: "string \<Rightarrow> int \<Rightarrow> string" where
  "trimToLen s l =
     (let l' = (if l < 0 then 0 else l)
      in if int (length s) > l' then take (nat l') s else s)"

text \<open>\<open>strings.Join\<close>; \<open>strings.Trim(s, "-")\<close> for a cutset of one character;
  \<open>strings.ReplaceAll(s, "--", "-")\<close>, which replaces the non-overlapping occurrences
  from the left in one pass.\<close>

fun Join :: "string list \<Rightarrow> string \<Rightarrow> string" where
  "Join [] sep = []"
| "Join [x] sep = x"
| "Join (x # xs) sep = x @ sep @ Join xs sep"

definition Trim :: "string \<Rightarrow> char \<Rightarrow> string" where
  "Trim s c = rev (dropWhile (\<lambda>x. x = c) (rev (dropWhile (\<lambda>x. x = c) s)))"

fun ReplaceAll_hyphens :: "string \<Rightarrow> string" where
  "ReplaceAll_hyphens (x # y # s) =
     (if x = CHR ''-'' \<and> y = CHR ''-'' then CHR ''-'' # ReplaceAll_hyphens s
      else x # ReplaceAll_hyphens (y # s))"
| "ReplaceAll_hyphens s = s"

text \<open>The characters a container name is made of.\<close>

definition nameChar :: "char \<Rightarrow> bool" where
  "nameChar c = (isAlnum c \<or> c = CHR ''-'')"

subsection \<open>Container names\<close>

text \<open>
  The loop of \<open>createContainerName\<close>: the last part is copied with its separators
  replaced and is not shortened; an earlier part is cut to \<open>partLen\<close> bytes, and when
  it ends in \<open>-<digits>\<close> it is cut to \<open>partLen - len(num[0])\<close> and the suffix is
  appended as a name element of its own.
\<close>

fun createContainerName_loop :: "int \<Rightarrow> string list \<Rightarrow> string list" where
  "createContainerName_loop partLen [] = []"
| "createContainerName_loop partLen [part] = [ReplaceAllString_nonAlnum part]"
| "createContainerName_loop partLen (part # parts) =
     (case FindStringSubmatch_num part of
        Some num \<Rightarrow>
          [trimToLen (ReplaceAllString_nonAlnum part) (partLen - int (length num)), num]
      | None \<Rightarrow> [trimToLen (ReplaceAllString_nonAlnum part) partLen])
     @ createContainerName_loop partLen parts"

text \<open>\<open>partLen := (30 / len(parts)) - 1\<close> panics when there is no part.\<close>

definition createContainerName :: "string list \<Rightarrow> err + string" where
  "createContainerName parts =
     (if parts = [] then Inl (Panic ''runtime error: integer divide by zero'')
      else
        let partLen = (30 div int (length parts)) - 1;
            name = createContainerName_loop partLen parts
        in Inr (ReplaceAll_hyphens (Trim (Join name ''-'') CHR ''-'')))"

text \<open>\<open>rc.String()\<close> is \<open>fmt.Sprintf("%s/%s", rc.Run.Workflow.Name, rc.Name)\<close>.\<close>

definition String :: "RunContext \<Rightarrow> string" where
  "String rc = WorkflowName (Run rc) @ ''/'' @ Name rc"

definition jobContainerName :: "RunContext \<Rightarrow> err + string" where
  "jobContainerName rc = createContainerName [''act'', String rc]"

text \<open>
  The pattern \<open>^[A-Za-z0-9]+(-[A-Za-z0-9]+)*$\<close> of the specification, as a predicate:
  letters and digits, with single hyphens between them only.
\<close>

fun matchesNamePattern :: "string \<Rightarrow> bool" where
  "matchesNamePattern [] = False"
| "matchesNamePattern [c] = isAlnum c"
| "matchesNamePattern (c # d # s) =
     (isAlnum c \<and>
      (if d = CHR ''-'' then s \<noteq> [] \<and> isAlnum (hd s) \<and> matchesNamePattern s
       else matchesNamePattern (d # s)))"

subsection \<open>JSON values and the record of the github context\<close>

text \<open>
  A decoded JSON value (the \<open>interface{}\<close> values \<open>json.Unmarshal\<close> produces): \<open>JNull\<close>
  is the nil interface, \<open>JObject\<close> a \<open>map[string]interface{}\<close>. A number keeps its
  literal text: no operation below computes with one.
\<close>

datatype json =
    JNull
  | JBool bool
  | JNumber string
  | JString string
  | JArray "json list"
  | JObject "string \<Rightarrow> json option"

text \<open>
  \<open>type githubContext struct\<close>, every field with the prefix \<open>gh_\<close>. The map \<open>Event\<close> may
  be nil (\<open>None\<close>): \<open>json.Unmarshal\<close> sets it so on the JSON text \<open>null\<close>.
\<close>

record githubContext =
  gh_Event :: "(string \<rightharpoonup> json) option"
  gh_EventPath :: string
  gh_Workflow :: string
  gh_RunID :: string
  gh_RunNumber :: string
  gh_Actor :: string
  gh_Repository :: string
  gh_EventName :: string
  gh_Sha :: string
  gh_Ref :: string
  gh_HeadRef :: string
  gh_BaseRef :: string
  gh_Token :: string
  gh_Workspace :: string
  gh_Action :: string
  gh_ActionPath :: string
  gh_ActionRef :: string
  gh_ActionRepository :: string
  gh_Job :: string
  gh_JobName :: string
  gh_RepositoryOwner :: string
  gh_RetentionDays :: string
  gh_RunnerPerflog :: string
  gh_RunnerTrackingID :: string

subsection \<open>External collaborators\<close>

text \<open>
  What the run context consumes from outside this file and cannot compute itself:
  \<open>runtime.GOOS\<close>, the method \<open>rc.ContainerWorkdir()\<close> (declared in another file of the
  package), the error, if any, that the backend reports for the removal of a named
  volume (\<open>container.NewDockerVolumeRemoveExecutor(name, force)\<close>), the look-ups in
  the git repository (\<open>common.FindGithubRepo\<close>, \<open>common.FindGitRevision\<close>,
  \<open>common.FindGitRef\<close>) and the two uses of \<open>json.Unmarshal\<close>: into a github
  context and into the event map, each giving the error and what the target holds
  after the call.
\<close>

record Host =
  GOOS :: string
  ContainerWorkdir :: "RunContext \<Rightarrow> string"
  VolumeRemoveOutcome :: "string \<Rightarrow> bool \<Rightarrow> string option"
  FindGithubRepo :: "string \<Rightarrow> string \<Rightarrow> err + string"
  FindGitRevision :: "string \<Rightarrow> err + string \<times> string"
  FindGitRef :: "string \<Rightarrow> err + string"
  json_Unmarshal_githubContext :: "string \<Rightarrow> githubContext \<Rightarrow> err option \<times> githubContext"
  json_Unmarshal_Event ::
    "string \<Rightarrow> (string \<rightharpoonup> json) option \<Rightarrow> err option \<times> (string \<rightharpoonup> json) option"

subsection \<open>Binds and mounts\<close>

definition GetActPath :: "RunContext \<Rightarrow> string" where
  "GetActPath rc = (if length (actPath rc) > 0 then actPath rc else ''/var/run/act'')"


subsection \<open>The github context\<close>

text \<open>A Go map read at a key it does not hold gives the empty string.\<close>

definition lookup :: "(string \<rightharpoonup> string) \<Rightarrow> string \<Rightarrow> string" where
  "lookup m k = (case m k of None \<Rightarrow> '''' | Some v \<Rightarrow> v)"

definition asString :: "json \<Rightarrow> string" where
  "asString v = (case v of JString s \<Rightarrow> s | _ \<Rightarrow> '''')"

fun nestedMapLookup :: "(string \<rightharpoonup> json) \<Rightarrow> string list \<Rightarrow> json" where
  "nestedMapLookup m [] = JNull"
| "nestedMapLookup m (k # ks) =
     (case m k of
        None \<Rightarrow> JNull
      | Some rval \<Rightarrow>
          if ks = [] then rval
          else (case rval of
                  JObject m' \<Rightarrow> nestedMapLookup m' ks
                | _ \<Rightarrow> JNull))"

text \<open>
  A Go map may be nil: \<open>None\<close> is the nil map, which reads as the empty map and cannot
  be written to.
\<close>

definition entries :: "(string \<rightharpoonup> json) option \<Rightarrow> (string \<rightharpoonup> json)" where
  "entries m = (case m of None \<Rightarrow> Map.empty | Some f \<Rightarrow> f)"

text \<open>
  \<open>withDefaultBranch\<close>. The map \<open>repo\<close> is the one the event holds, or a fresh one; the
  assignment \<open>event["repository"] = repo\<close> panics when the event is the nil map.
\<close>

definition withDefaultBranch ::
  "string \<Rightarrow> (string \<rightharpoonup> json) option \<Rightarrow> err + (string \<rightharpoonup> json) option" where
  "withDefaultBranch b event =
     (let repoI = (case entries event ''repository'' of None \<Rightarrow> JObject Map.empty | Some v \<Rightarrow> v)
      in case repoI of
           JObject repo \<Rightarrow>
             (case repo ''default_branch'' of
                Some v \<Rightarrow> Inr event
              | None \<Rightarrow>
                  (case event of
                     None \<Rightarrow> Inl (Panic ''assignment to entry in nil map'')
                   | Some ev \<Rightarrow>
                       Inr (Some (ev(''repository'' \<mapsto> JObject (repo(''default_branch'' \<mapsto> JString b)))))))
         | _ \<Rightarrow> Inr event)"

text \<open>The name of the dynamic type of a decoded JSON value, as a failed type assertion prints it.\<close>

definition dynamicType :: "json \<Rightarrow> string" where
  "dynamicType v =
     (case v of
        JNull \<Rightarrow> ''nil''
      | JBool b \<Rightarrow> ''bool''
      | JNumber n \<Rightarrow> ''float64''
      | JString s \<Rightarrow> ''string''
      | JArray a \<Rightarrow> ''[]interface {}''
      | JObject m \<Rightarrow> ''map[string]interface {}'')"

text \<open>
  \<open>applyDefaults\<close>. The failures of the repository look-ups and of the event parser
  are logged and the fields keep their values; the parser may leave the event nil (the
  JSON text \<open>null\<close>). \<open>maybeRef\<close> is nil (\<open>JNull\<close>) when the event has no \<open>ref\<close>: then the
  ref of the repository is used and the default branch is written into the event, which
  panics on a nil event; \<open>ghc.Ref = maybeRef.(string)\<close> panics when the event holds a
  \<open>ref\<close> that is not a string.
\<close>

definition applyDefaults :: "Host \<Rightarrow> RunContext \<Rightarrow> githubContext \<Rightarrow> err + githubContext" where
  "applyDefaults h rc ghc0 =
     (let ghc1 = (if gh_RunID ghc0 = '''' then ghc0\<lparr>gh_RunID := ''1''\<rparr> else ghc0);
          ghc2 = (if gh_RunNumber ghc1 = '''' then ghc1\<lparr>gh_RunNumber := ''1''\<rparr> else ghc1);
          ghc3 = (if gh_RetentionDays ghc2 = '''' then ghc2\<lparr>gh_RetentionDays := ''0''\<rparr> else ghc2);
          ghc4 = (if gh_RunnerPerflog ghc3 = '''' then ghc3\<lparr>gh_RunnerPerflog := ''/dev/null''\<rparr>
                  else ghc3);
          ghc5 = (if gh_Actor ghc4 = '''' then ghc4\<lparr>gh_Actor := ''nektos/act''\<rparr> else ghc4);
          repoPath = Workdir (Config rc);
          ghc6 = (case FindGithubRepo h repoPath (GitHubInstance (Config rc)) of
                    Inl e \<Rightarrow> ghc5
                  | Inr repo \<Rightarrow>
                      let g = ghc5\<lparr>gh_Repository := repo\<rparr>
                      in if gh_RepositoryOwner g = ''''
                         then g\<lparr>gh_RepositoryOwner := takeWhile (\<lambda>c. c \<noteq> CHR ''/'') repo\<rparr>
                         else g);
          ghc7 = (case FindGitRevision h repoPath of
                    Inl e \<Rightarrow> ghc6
                  | Inr (short, sha) \<Rightarrow> ghc6\<lparr>gh_Sha := sha\<rparr>);
          ghc8 = (if EventJSON rc \<noteq> ''''
                  then ghc7\<lparr>gh_Event := snd (json_Unmarshal_Event h (EventJSON rc) (gh_Event ghc7))\<rparr>
                  else ghc7);
          maybeRef = nestedMapLookup (entries (gh_Event ghc8)) [gh_EventName ghc8, ''ref''];
          pullRequest = (\<lambda>g.
            if gh_EventName g = ''pull_request''
            then g\<lparr>gh_BaseRef :=
                     asString (nestedMapLookup (entries (gh_Event g)) [''pull_request'', ''base'', ''ref'']),
                   gh_HeadRef :=
                     asString (nestedMapLookup (entries (gh_Event g)) [''pull_request'', ''head'', ''ref''])\<rparr>
            else g)
      in case maybeRef of
           JNull \<Rightarrow>
             (let ghc9 = (case FindGitRef h repoPath of
                            Inl e \<Rightarrow> ghc8
                          | Inr ref \<Rightarrow> ghc8\<lparr>gh_Ref := ref\<rparr>)
              in case (if DefaultBranch (Config rc) \<noteq> ''''
                       then withDefaultBranch (DefaultBranch (Config rc)) (gh_Event ghc9)
                       else withDefaultBranch ''master'' (gh_Event ghc9)) of
                   Inl p \<Rightarrow> Inl p
                 | Inr event \<Rightarrow> Inr (pullRequest (ghc9\<lparr>gh_Event := event\<rparr>)))
         | JString ref \<Rightarrow> Inr (pullRequest (ghc8\<lparr>gh_Ref := ref\<rparr>))
         | v \<Rightarrow> Inl (Panic (''interface conversion: interface {} is '' @ dynamicType v @ '', not string'')))"

text \<open>
  \<open>getGithubContext\<close>: the fields the composite literal does not name are empty. When
  \<open>GithubContextBase\<close> is set and parses, the parsed context is returned as it is;
  when it does not parse, the defaults are applied to what the parser left.
\<close>

definition getGithubContext :: "Host \<Rightarrow> RunContext \<Rightarrow> err + githubContext" where
  "getGithubContext h rc =
     (let ghc = \<lparr>gh_Event = Some Map.empty,
                 gh_EventPath = GetActPath rc @ ''/workflow/event.json'',
                 gh_Workflow = WorkflowName (Run rc),
                 gh_RunID = lookup (ConfigEnv (Config rc)) ''GITHUB_RUN_ID'',
                 gh_RunNumber = lookup (ConfigEnv (Config rc)) ''GITHUB_RUN_NUMBER'',
                 gh_Actor = Actor (Config rc),
                 gh_Repository = '''',
                 gh_EventName = EventName (Config rc),
                 gh_Sha = '''',
                 gh_Ref = '''',
                 gh_HeadRef = '''',
                 gh_BaseRef = '''',
                 gh_Token = lookup (Secrets (Config rc)) ''GITHUB_TOKEN'',
                 gh_Workspace = ContainerWorkdir h rc,
                 gh_Action = CurrentStep rc,
                 gh_ActionPath = ActionPath rc,
                 gh_ActionRef = ActionRef rc,
                 gh_ActionRepository = ActionRepository rc,
                 gh_Job = '''',
                 gh_JobName = '''',
                 gh_RepositoryOwner = lookup (ConfigEnv (Config rc)) ''GITHUB_REPOSITORY_OWNER'',
                 gh_RetentionDays = lookup (ConfigEnv (Config rc)) ''GITHUB_RETENTION_DAYS'',
                 gh_RunnerPerflog = lookup (ConfigEnv (Config rc)) ''RUNNER_PERFLOG'',
                 gh_RunnerTrackingID = lookup (ConfigEnv (Config rc)) ''RUNNER_TRACKING_ID''\<rparr>
      in case GithubContextBase rc of
           None \<Rightarrow> applyDefaults h rc ghc
         | Some base \<Rightarrow>
             (case json_Unmarshal_githubContext h base ghc of
                (None, ghc') \<Rightarrow> Inr ghc'
              | (Some e, ghc') \<Rightarrow> applyDefaults h rc ghc'))"

subsection \<open>The environment of the runner\<close>

text \<open>
  \<open>strings.Replace(platformName, "-", "", 1)\<close> removes the first hyphen;
  \<open>strings.SplitN(s, ".", 2)[0]\<close> is what stands before the first dot.
\<close>

fun Replace_first_hyphen :: "string \<Rightarrow> string" where
  "Replace_first_hyphen [] = []"
| "Replace_first_hyphen (c # s) = (if c = CHR ''-'' then s else c # Replace_first_hyphen s)"

definition SplitN_dot_head :: "string \<Rightarrow> string" where
  "SplitN_dot_head s = takeWhile (\<lambda>c. c \<noteq> CHR ''.'') s"

text \<open>
  The first part of \<open>withGithubEnv\<close> (the assignments up to the rewrite of the three
  URLs for a GitHub instance other than \<open>github.com\<close>), in the order of the source.
\<close>

definition githubEnv_vars :: "githubContext \<Rightarrow> RunContext \<Rightarrow> (string \<rightharpoonup> string) \<Rightarrow> (string \<rightharpoonup> string)" where
  "githubEnv_vars github rc env =
     (let env1 = env(''CI'' \<mapsto> ''true'',
                     ''GITHUB_ENV'' \<mapsto> GetActPath rc @ ''/workflow/envs.txt'',
                     ''GITHUB_PATH'' \<mapsto> GetActPath rc @ ''/workflow/paths.txt'',
                     ''GITHUB_WORKFLOW'' \<mapsto> gh_Workflow github,
                     ''GITHUB_RUN_ID'' \<mapsto> gh_RunID github,
                     ''GITHUB_RUN_NUMBER'' \<mapsto> gh_RunNumber github,
                     ''GITHUB_ACTION'' \<mapsto> gh_Action github);
          env2 = (if gh_ActionPath github \<noteq> ''''
                  then env1(''GITHUB_ACTION_PATH'' \<mapsto> gh_ActionPath github)
                  else env1);
          env3 = env2(''GITHUB_ACTIONS'' \<mapsto> ''true'',
                      ''GITHUB_ACTOR'' \<mapsto> gh_Actor github,
                      ''GITHUB_REPOSITORY'' \<mapsto> gh_Repository github,
                      ''GITHUB_EVENT_NAME'' \<mapsto> gh_EventName github,
                      ''GITHUB_EVENT_PATH'' \<mapsto> gh_EventPath github,
                      ''GITHUB_WORKSPACE'' \<mapsto> gh_Workspace github,
                      ''GITHUB_SHA'' \<mapsto> gh_Sha github,
                      ''GITHUB_REF'' \<mapsto> gh_Ref github,
                      ''GITHUB_TOKEN'' \<mapsto> gh_Token github,
                      ''GITHUB_SERVER_URL'' \<mapsto> ''https://github.com'',
                      ''GITHUB_API_URL'' \<mapsto> ''https://api.github.com'',
                      ''GITHUB_GRAPHQL_URL'' \<mapsto> ''https://api.github.com/graphql'',
                      ''GITHUB_ACTION_REF'' \<mapsto> gh_ActionRef github,
                      ''GITHUB_ACTION_REPOSITORY'' \<mapsto> gh_ActionRepository github,
                      ''GITHUB_BASE_REF'' \<mapsto> gh_BaseRef github,
                      ''GITHUB_HEAD_REF'' \<mapsto> gh_HeadRef github,
                      ''GITHUB_JOB'' \<mapsto> JobName rc,
                      ''GITHUB_REPOSITORY_OWNER'' \<mapsto> gh_RepositoryOwner github,
                      ''GITHUB_RETENTION_DAYS'' \<mapsto> gh_RetentionDays github,
                      ''RUNNER_PERFLOG'' \<mapsto> gh_RunnerPerflog github,
                      ''RUNNER_TRACKING_ID'' \<mapsto> gh_RunnerTrackingID github)
      in if GitHubInstance (Config rc) \<noteq> ''github.com''
         then env3(''GITHUB_SERVER_URL'' \<mapsto> ''https://'' @ GitHubInstance (Config rc),
                   ''GITHUB_API_URL'' \<mapsto> ''https://'' @ GitHubInstance (Config rc) @ ''/api/v3'',
                   ''GITHUB_GRAPHQL_URL'' \<mapsto> ''https://'' @ GitHubInstance (Config rc) @ ''/api/graphql'')
         else env3)"

text \<open>
  The loop over the \<open>runs-on\<close> labels: every label whose interpolation is not empty
  assigns \<open>ImageOS\<close>, and the loop goes on to the next label.
\<close>

fun ImageOS_loop :: "ExpressionEvaluator \<Rightarrow> string list \<Rightarrow> (string \<rightharpoonup> string) \<Rightarrow> (string \<rightharpoonup> string)" where
  "ImageOS_loop ee [] env = env"
| "ImageOS_loop ee (runnerLabel # labels) env =
     (let platformName = Interpolate ee runnerLabel
      in if platformName \<noteq> '''' then
           (if platformName = ''ubuntu-latest''
            then ImageOS_loop ee labels (env(''ImageOS'' \<mapsto> ''ubuntu20''))
            else ImageOS_loop ee labels
                   (env(''ImageOS'' \<mapsto> SplitN_dot_head (Replace_first_hyphen platformName))))
         else ImageOS_loop ee labels env)"

text \<open>
  \<open>withGithubEnv\<close> writes into the map it is given and returns it: the result is the
  map after the call, or the panic of \<open>getGithubContext\<close>.
\<close>

definition withGithubEnv :: "Host \<Rightarrow> RunContext \<Rightarrow> (string \<rightharpoonup> string) \<Rightarrow> err + (string \<rightharpoonup> string)" where
  "withGithubEnv h rc env =
     (case getGithubContext h rc of
        Inl e \<Rightarrow> Inl e
      | Inr github \<Rightarrow>
          Inr (ImageOS_loop (ExprEval rc) (RunsOn (RunJob (Run rc))) (githubEnv_vars github rc env)))"

subsection \<open>Executors\<close>

text \<open>
  A \<open>common.Executor\<close> is a function of a context that does its work and returns an
  error or nil: here a function of the context and of the state it works on, to the
  error and the state it leaves.
\<close>

type_synonym 's Executor = "Context \<Rightarrow> 's \<Rightarrow> err option \<times> 's"

text \<open>
  Modelled from the spec: the combinators \<open>Then\<close>, \<open>If\<close> (here \<open>If_cond\<close>), \<open>Finally\<close> and
  \<open>NewPipelineExecutor\<close>, the logger binding of a context (\<open>common.Logger\<close>,
  \<open>common.WithLogger\<close>) and the cancellation a context carries belong to package common
  and to the standard library, whose source is not among the files embedded here. The
  specification says: \<open>Then(next)\<close> runs self and, if it succeeds, next, and propagates
  the first failure; \<open>If(predicate)\<close> evaluates self only when the predicate holds and
  otherwise yields success; \<open>Finally(cleanup)\<close> runs cleanup after self regardless of
  the outcome, under a detached context carrying only the logger binding, and surfaces
  the outcome of self (a failure of the cleanup is logged, not propagated);
  \<open>NewPipelineExecutor\<close> is the short-circuit sequential composition: the first failure
  stops the stages that follow. Every Executor receives a cancellation-carrying context,
  and cancellation stops the subsequent stages of a pipeline but does not skip the
  \<open>Finally\<close> stages: so \<open>Then\<close>, once self has succeeded, looks at the context, and under
  a cancelled one it returns the error of the context, \<open>context canceled\<close>, and does not
  run next. The stages of a pipeline are chained with \<open>Then\<close>: after the last stage
  there is no stage left for a cancellation to stop, and the pipeline of no stage
  succeeds.
\<close>

definition Background :: Context where
  "Background = \<lparr>LoggerBinding = None, Cancelled = False, Bindings = []\<rparr>"

definition Logger :: "Context \<Rightarrow> string" where
  "Logger ctx = (case LoggerBinding ctx of None \<Rightarrow> ''standard'' | Some l \<Rightarrow> l)"

definition WithLogger :: "Context \<Rightarrow> string \<Rightarrow> Context" where
  "WithLogger ctx l = ctx\<lparr>LoggerBinding := Some l\<rparr>"

definition Then :: "'s Executor \<Rightarrow> 's Executor \<Rightarrow> 's Executor" where
  "Then e next = (\<lambda>ctx s.
     case e ctx s of
       (None, s') \<Rightarrow>
         if Cancelled ctx then (Some (Err ''context canceled''), s') else next ctx s'
     | (Some er, s') \<Rightarrow> (Some er, s'))"

definition If_cond :: "'s Executor \<Rightarrow> (Context \<Rightarrow> 's \<Rightarrow> bool) \<Rightarrow> 's Executor" where
  "If_cond e cond = (\<lambda>ctx s. if cond ctx s then e ctx s else (None, s))"

definition Finally :: "'s Executor \<Rightarrow> 's Executor \<Rightarrow> 's Executor" where
  "Finally e cleanup = (\<lambda>ctx s.
     case e ctx s of
       (r, s') \<Rightarrow>
         (case cleanup (WithLogger Background (Logger ctx)) s' of
            (r', s'') \<Rightarrow> (r, s'')))"

fun NewPipelineExecutor :: "'s Executor list \<Rightarrow> 's Executor" where
  "NewPipelineExecutor [] = (\<lambda>ctx s. (None, s))"
| "NewPipelineExecutor [e] = e"
| "NewPipelineExecutor (e # e' # es) = Then e (NewPipelineExecutor (e' # es))"

subsection \<open>The expression gate\<close>

text \<open>
  The package variables \<open>expressionPattern\<close> and \<open>operatorPattern\<close> are compiled in
  another file, and \<open>splitPattern\<close> is compiled from them on the first call of
  \<open>EvalBool\<close>: the three regular expressions are parameters, \<open>expressionPattern\<close> and
  \<open>operatorPattern\<close> through \<open>MatchString\<close>, \<open>splitPattern\<close> through
  \<open>FindAllString(expr, -1)\<close>.
\<close>

record Patterns =
  expressionPattern :: "string \<Rightarrow> bool"
  operatorPattern :: "string \<Rightarrow> bool"
  splitPattern :: "string \<Rightarrow> string list"

text \<open>\<open>strings.HasPrefix\<close>.\<close>

fun HasPrefix :: "string \<Rightarrow> string \<Rightarrow> bool" where
  "HasPrefix s [] = True"
| "HasPrefix [] (p # ps) = False"
| "HasPrefix (c # s) (p # ps) = (c = p \<and> HasPrefix s ps)"

text \<open>
  \<open>strings.TrimSpace\<close> removes the leading and the trailing white-space runes
  (\<open>unicode.IsSpace\<close>): tab, line feed, vertical tab, form feed, carriage return, space,
  U+0085, U+00A0, U+1680, U+2000 to U+200A, U+2028, U+2029, U+202F, U+205F and U+3000,
  here in their UTF-8 encodings. \<open>TrimLeftRunes\<close> removes leading occurrences of the
  given byte sequences; the trailing ones are removed on the reversed string.
\<close>

definition spaceRunes :: "string list" where
  "spaceRunes =
     [[CHR 0x09], [CHR 0x0A], [CHR 0x0B], [CHR 0x0C], [CHR 0x0D], [CHR 0x20],
      [CHR 0xC2, CHR 0x85], [CHR 0xC2, CHR 0xA0], [CHR 0xE1, CHR 0x9A, CHR 0x80],
      [CHR 0xE2, CHR 0x80, CHR 0x80], [CHR 0xE2, CHR 0x80, CHR 0x81],
      [CHR 0xE2, CHR 0x80, CHR 0x82], [CHR 0xE2, CHR 0x80, CHR 0x83],
      [CHR 0xE2, CHR 0x80, CHR 0x84], [CHR 0xE2, CHR 0x80, CHR 0x85],
      [CHR 0xE2, CHR 0x80, CHR 0x86], [CHR 0xE2, CHR 0x80, CHR 0x87],
      [CHR 0xE2, CHR 0x80, CHR 0x88], [CHR 0xE2, CHR 0x80, CHR 0x89],
      [CHR 0xE2, CHR 0x80, CHR 0x8A], [CHR 0xE2, CHR 0x80, CHR 0xA8],
      [CHR 0xE2, CHR 0x80, CHR 0xA9], [CHR 0xE2, CHR 0x80, CHR 0xAF],
      [CHR 0xE2, CHR 0x81, CHR 0x9F], [CHR 0xE3, CHR 0x80, CHR 0x80]]"

fun TrimLeftRunes :: "string list \<Rightarrow> string \<Rightarrow> string" where
  "TrimLeftRunes runes [] = []"
| "TrimLeftRunes runes (c # s) =
     (case find (HasPrefix (c # s)) runes of
        None \<Rightarrow> c # s
      | Some p \<Rightarrow> TrimLeftRunes runes (drop (length p - 1) s))"

definition TrimSpace :: "string \<Rightarrow> string" where
  "TrimSpace s = rev (TrimLeftRunes (map rev spaceRunes) (rev (TrimLeftRunes spaceRunes s)))"

text \<open>
  \<open>previousOrNextPartIsAnOperator(i, parts)\<close>; its one caller passes the index of a
  range loop over \<open>parts\<close>, so \<open>parts[i-1]\<close> and \<open>parts[i+1]\<close> are read in range.
\<close>

definition previousOrNextPartIsAnOperator :: "Patterns \<Rightarrow> nat \<Rightarrow> string list \<Rightarrow> bool" where
  "previousOrNextPartIsAnOperator pt i parts =
     (let operator0 = (if i > 0 then operatorPattern pt (parts ! (i - 1)) else False)
      in if i + 1 < length parts then operator0 \<or> operatorPattern pt (parts ! (i + 1))
         else operator0)"

text \<open>
  The loop of \<open>EvalBool\<close> over the tokens, \<open>i\<close> the index and \<open>evaluatedParts\<close> the
  slice it appends to: an operator is appended as it is (\<open>continue\<close>); any other
  token is interpolated and, under the quoting condition, put between single quotes.
\<close>

function EvalBool_loop ::
  "Patterns \<Rightarrow> ExpressionEvaluator \<Rightarrow> string list \<Rightarrow> nat \<Rightarrow> string list \<Rightarrow> string list" where
  "EvalBool_loop pt ee parts i evaluatedParts =
     (if i < length parts then
        (let part = parts ! i
         in if operatorPattern pt part
            then EvalBool_loop pt ee parts (i + 1) (evaluatedParts @ [part])
            else
              (case InterpolateWithStringCheck ee part of
                 (interpolatedPart, isString) \<Rightarrow>
                   let interpolatedPart' =
                     (if (expressionPattern pt part \<and> \<not> CHR ''!'' \<in> set part)
                         \<and> interpolatedPart = ''false''
                         \<and> (isString \<or> previousOrNextPartIsAnOperator pt i parts)
                      then [CHR 0x27] @ interpolatedPart @ [CHR 0x27]
                      else interpolatedPart)
                   in EvalBool_loop pt ee parts (i + 1) (evaluatedParts @ [interpolatedPart'])))
      else evaluatedParts)"
  by pat_completeness auto
termination
  by (relation "measure (\<lambda>(pt, ee, parts, i, evaluatedParts). length parts - i)") auto

declare EvalBool_loop.simps [simp del]

text \<open>The string the loop of \<open>EvalBool\<close> appends for the token at index \<open>i\<close>.\<close>

definition EvalBool_part :: "Patterns \<Rightarrow> ExpressionEvaluator \<Rightarrow> string list \<Rightarrow> nat \<Rightarrow> string" where
  "EvalBool_part pt ee parts i =
     (let part = parts ! i
      in if operatorPattern pt part then part
         else
           (case InterpolateWithStringCheck ee part of
              (interpolatedPart, isString) \<Rightarrow>
                if (expressionPattern pt part \<and> \<not> CHR ''!'' \<in> set part)
                   \<and> interpolatedPart = ''false''
                   \<and> (isString \<or> previousOrNextPartIsAnOperator pt i parts)
                then [CHR 0x27] @ interpolatedPart @ [CHR 0x27]
                else interpolatedPart))"

definition EvalBool :: "Patterns \<Rightarrow> ExpressionEvaluator \<Rightarrow> string \<Rightarrow> err + bool" where
  "EvalBool pt ee expr =
     (if HasPrefix (TrimSpace expr) ''!''
      then Inl (Err ''expressions starting with ! must be wrapped in ${{ }}'')
      else if expr \<noteq> '''' then
        (let parts = splitPattern pt expr;
             evaluatedParts = EvalBool_loop pt ee parts 0 [];
             joined = Join evaluatedParts '' ''
         in case Evaluate ee (''Boolean('' @ joined @ '')'') of
              Inl e \<Rightarrow> Inl e
            | Inr v \<Rightarrow> Inr (v = ''true''))
      else Inr True)"

subsection \<open>The step dispatcher\<close>

text \<open>
  The step engine (the methods \<open>setupEnv\<close> and \<open>Executor\<close> of \<open>StepContext\<close>, declared
  in another file): both work on the run context and may change it. \<open>setupEnv\<close> gives
  an evaluator or an error message, the executor of the step an error message or nil.
\<close>

record StepEngine =
  setupEnv :: "Step \<Rightarrow> Context \<Rightarrow> RunContext \<Rightarrow> (string + ExpressionEvaluator) \<times> RunContext"
  stepExecutor :: "Step \<Rightarrow> Context \<Rightarrow> RunContext \<Rightarrow> string option \<times> RunContext"

text \<open>\<open>*rc.getStepsContext()\<close>: the map of the step results, empty when it was nil.\<close>

definition stepsMap :: "RunContext \<Rightarrow> (string \<rightharpoonup> stepResult)" where
  "stepsMap rc = (case StepResults (getStepsContext rc) of None \<Rightarrow> Map.empty | Some m \<Rightarrow> m)"

text \<open>
  The first two statements of the executor: \<open>rc.CurrentStep = sc.Step.ID\<close> and the
  fresh result \<open>{Success: true, Outputs: make(map[string]string)}\<close> of the step.
\<close>

definition enterStep :: "Step \<Rightarrow> RunContext \<Rightarrow> RunContext" where
  "enterStep step rc =
     (let rc1 = rc\<lparr>CurrentStep := ID step\<rparr>
      in rc1\<lparr>StepResults :=
               Some ((stepsMap rc1)(CurrentStep rc1 \<mapsto> \<lparr>Success = True, Outputs = Some Map.empty\<rparr>))\<rparr>)"

text \<open>
  \<open>(*rc.getStepsContext())[rc.CurrentStep].Success = b\<close>: the map holds pointers, and
  the assignment through the nil pointer of a missing entry panics.
\<close>

definition setSuccess :: "RunContext \<Rightarrow> bool \<Rightarrow> err + RunContext" where
  "setSuccess rc b =
     (case stepsMap rc (CurrentStep rc) of
        None \<Rightarrow> Inl (Panic ''invalid memory address or nil pointer dereference'')
      | Some r \<Rightarrow> Inr (rc\<lparr>StepResults := Some ((stepsMap rc)(CurrentStep rc \<mapsto> r\<lparr>Success := b\<rparr>))\<rparr>))"

text \<open>
  \<open>newStepExecutor\<close>. In the branch of a failed \<open>if:\<close> evaluation the statement
  \<open>exprEval, err := sc.setupEnv(ctx)\<close> declares a new \<open>err\<close> in the block, so the
  \<open>return err\<close> that ends the block returns the error of \<open>setupEnv\<close>, which is nil there.
\<close>

definition newStepExecutor :: "Patterns \<Rightarrow> StepEngine \<Rightarrow> Step \<Rightarrow> RunContext Executor" where
  "newStepExecutor pt eng step = (\<lambda>ctx rc0.
     let rc = enterStep step rc0
     in case EvalBool pt (ExprEval rc) (IfValue step) of
          Inl err \<Rightarrow>
            (case setupEnv eng step ctx rc of
               (Inl err', rc1) \<Rightarrow> (Some (Err err'), rc1)
             | (Inr exprEval, rc1) \<Rightarrow>
                 (case setSuccess (rc1\<lparr>ExprEval := exprEval\<rparr>) False of
                    Inl p \<Rightarrow> (Some p, rc1\<lparr>ExprEval := exprEval\<rparr>)
                  | Inr rc2 \<Rightarrow> (None, rc2)))
        | Inr runStep \<Rightarrow>
            if \<not> runStep then (None, rc)
            else
              (case setupEnv eng step ctx rc of
                 (Inl err', rc1) \<Rightarrow> (Some (Err err'), rc1)
               | (Inr exprEval, rc1) \<Rightarrow>
                   (case stepExecutor eng step ctx (rc1\<lparr>ExprEval := exprEval\<rparr>) of
                      (None, rc2) \<Rightarrow> (None, rc2)
                    | (Some err, rc2) \<Rightarrow>
                        if ContinueOnError step then
                          (case setSuccess rc2 True of
                             Inl p \<Rightarrow> (Some p, rc2)
                           | Inr rc3 \<Rightarrow> (None, rc3))
                        else
                          (case setSuccess rc2 False of
                             Inl p \<Rightarrow> (Some p, rc2)
                           | Inr rc3 \<Rightarrow> (Some (Err err), rc3)))))"

subsection \<open>Teardown of the job container\<close>

text \<open>
  The state the container operations work on is the log of the calls the backend
  received, each with the context it was given.
\<close>

datatype call =
    CallRemove Context
  | CallVolumeRemove string bool Context
  | CallClose Context

definition Remove :: "Container \<Rightarrow> call list Executor" where
  "Remove c = (\<lambda>ctx log. (map_option Err (RemoveOutcome c), log @ [CallRemove ctx]))"

definition Close :: "Container \<Rightarrow> call list Executor" where
  "Close c = (\<lambda>ctx log. (map_option Err (CloseOutcome c), log @ [CallClose ctx]))"

definition NewDockerVolumeRemoveExecutor :: "Host \<Rightarrow> string \<Rightarrow> bool \<Rightarrow> call list Executor" where
  "NewDockerVolumeRemoveExecutor h volume force =
     (\<lambda>ctx log. (map_option Err (VolumeRemoveOutcome h volume force),
                 log @ [CallVolumeRemove volume force ctx]))"

text \<open>
  \<open>stopJobContainer\<close>: the closure reads \<open>rc\<close> when it is invoked, so the run context
  of that moment is the argument. The chain is built (with the container name) before
  it is run.
\<close>

definition stopJobContainer :: "Host \<Rightarrow> RunContext \<Rightarrow> call list Executor" where
  "stopJobContainer h rc = (\<lambda>ctx log.
     case JobContainer rc of
       None \<Rightarrow> (None, log)
     | Some c \<Rightarrow>
         if \<not> ReuseContainers (Config rc) then
           (case jobContainerName rc of
              Inl e \<Rightarrow> (Some e, log)
            | Inr name \<Rightarrow>
                Finally
                  (Then (Remove c)
                     (If_cond (NewDockerVolumeRemoveExecutor h name False)
                        (\<lambda>ctx log. \<not> IsHostExecutor c)))
                  (Close c)
                  (WithLogger Background (Logger ctx)) log)
         else (None, log))"

subsection \<open>Examples of run contexts\<close>

definition exampleEvaluator :: ExpressionEvaluator where
  "exampleEvaluator =
     \<lparr>Evaluate = (\<lambda>s. if s = ''Boolean(true)'' then Inr ''true'' else Inr ''false''),
      Interpolate = (\<lambda>s. s),
      InterpolateWithStringCheck = (\<lambda>s. (s, False))\<rparr>"

definition exampleConfig :: Config where
  "exampleConfig =
     \<lparr>ConfigEnv = [''A'' \<mapsto> ''config'', ''B'' \<mapsto> ''config'', ''C'' \<mapsto> ''config''],
      ContainerDaemonSocket = '''', BindWorkdir = False, Workdir = ''/repo'',
      LogOutput = False, Secrets = Map.empty, Privileged = False, UsernsMode = '''',
      ContainerArchitecture = '''', ForcePull = False, ContainerCapAdd = [],
      ContainerCapDrop = [], UseGitIgnore = False, ReuseContainers = False,
      Platforms = Map.empty, Actor = '''', EventName = ''push'',
      GitHubInstance = ''github.com'', DefaultBranch = '''', ForceRemoteCheckout = False\<rparr>"

definition exampleJob :: Job where
  "exampleJob =
     \<lparr>JobEnvironment = [''A'' \<mapsto> ''job'', ''ACT'' \<mapsto> ''no''],
      RunsOn = [''ubuntu-latest'', ''windows-2019''],
      Steps = []\<rparr>"

definition exampleRun :: Run where
  "exampleRun =
     \<lparr>WorkflowName = ''ci'',
      WorkflowEnv = [''A'' \<mapsto> ''workflow'', ''B'' \<mapsto> ''workflow''],
      RunJob = exampleJob\<rparr>"

definition exampleRC :: RunContext where
  "exampleRC =
     \<lparr>GithubContextBase = None, Name = ''build-3'', Config = exampleConfig,
      Run = exampleRun, EventJSON = '''', Env = None, CurrentStep = '''',
      StepResults = Some [''old'' \<mapsto> \<lparr>Success = False, Outputs = Some Map.empty\<rparr>],
      ExprEval = exampleEvaluator, JobContainer = None, JobName = ''build'',
      actPath = '''', ActionPath = '''', ActionRef = '''', ActionRepository = ''''\<rparr>"

definition longNameRC :: RunContext where
  "longNameRC =
     exampleRC\<lparr>Name := ''build///test'',
               Run := exampleRun\<lparr>WorkflowName := ''continuous integration and release pipeline''\<rparr>\<rparr>"

definition exampleHost :: Host where
  "exampleHost =
     \<lparr>GOOS = ''linux'',
      ContainerWorkdir = (\<lambda>rc. ''/github/workspace''),
      VolumeRemoveOutcome = (\<lambda>volume force. None),
      FindGithubRepo = (\<lambda>path instance. Inr ''nektos/act''),
      FindGitRevision = (\<lambda>path. Inr (''1a2b3c4'', ''1a2b3c4d5e6f'')),
      FindGitRef = (\<lambda>path. Inr ''refs/heads/main''),
      json_Unmarshal_githubContext = (\<lambda>text ghc. (Some (Err ''unexpected end of JSON input''), ghc)),
      json_Unmarshal_Event = (\<lambda>text event. (Some (Err ''unexpected end of JSON input''), event))\<rparr>"

definition exampleContext :: Context where
  "exampleContext =
     \<lparr>LoggerBinding = Some ''job-logger'', Cancelled = True, Bindings = [(''k'', ''v'')]\<rparr>"

definition exampleContainer :: Container where
  "exampleContainer = \<lparr>IsHostExecutor = False, RemoveOutcome = None, CloseOutcome = None\<rparr>"

definition failingContainer :: Container where
  "failingContainer =
     \<lparr>IsHostExecutor = False, RemoveOutcome = Some ''no such container'', CloseOutcome = None\<rparr>"


definition macRC :: RunContext where
  "macRC = exampleRC\<lparr>Run := exampleRun\<lparr>RunJob := exampleJob\<lparr>RunsOn := [''macos-10.15'', '''']\<rparr>\<rparr>\<rparr>"

text \<open>
  Stand-ins for the three patterns, for the examples only: an operator is a non-empty
  word over \<open>!=><|&\<close>, an expression block begins with \<open>${{\<close>, and the tokens are the
  words between spaces.
\<close>

fun words_from :: "string \<Rightarrow> string \<Rightarrow> string list" where
  "words_from [] w = (if w = [] then [] else [w])"
| "words_from (c # s) w =
     (if c = CHR '' '' then (if w = [] then words_from s [] else w # words_from s [])
      else words_from s (w @ [c]))"

definition examplePatterns :: Patterns where
  "examplePatterns =
     \<lparr>expressionPattern = (\<lambda>s. HasPrefix s ''${{''),
      operatorPattern = (\<lambda>s. s \<noteq> [] \<and> list_all (\<lambda>c. c \<in> set ''!=><|&'') s),
      splitPattern = (\<lambda>s. words_from s [])\<rparr>"

definition flagEvaluator :: ExpressionEvaluator where
  "flagEvaluator =
     \<lparr>Evaluate = (\<lambda>s. if s = ''Boolean('' @ [CHR 0x27] @ ''false'' @ [CHR 0x27] @ '' == false)''
                        then Inr ''false'' else Inl (Err ''unexpected token'')),
      Interpolate = (\<lambda>s. if s = ''${{env.FLAG}}'' then ''false'' else s),
      InterpolateWithStringCheck = (\<lambda>s. if s = ''${{env.FLAG}}'' then (''false'', False) else (s, False))\<rparr>"

definition exampleEngine :: StepEngine where
  "exampleEngine =
     \<lparr>setupEnv = (\<lambda>step ctx rc. (Inr flagEvaluator, rc)),
      stepExecutor = (\<lambda>step ctx rc. (Some ''exit status 1'', rc))\<rparr>"

definition negatedStep :: Step where
  "negatedStep = \<lparr>ID = ''lint'', IfValue = ''!failure()'', ContinueOnError = False\<rparr>"

definition failingStep :: Step where
  "failingStep = \<lparr>ID = ''test'', IfValue = '''', ContinueOnError = True\<rparr>"

definition deployStep :: Step where
  "deployStep = \<lparr>ID = ''deploy'', IfValue = '''', ContinueOnError = False\<rparr>"

definition liveContext :: Context where
  "liveContext = exampleContext\<lparr>Cancelled := False\<rparr>"

definition brokenSetupEngine :: StepEngine where
  "brokenSetupEngine =
     \<lparr>setupEnv = (\<lambda>step ctx rc. (Inl ''cannot read the image environment'', rc)),
      stepExecutor = (\<lambda>step ctx rc. (None, rc))\<rparr>"

definition refHost :: Host where
  "refHost =
     exampleHost\<lparr>json_Unmarshal_Event :=
       (\<lambda>text event. (None, Some ((entries event)(''push'' \<mapsto> JObject [''ref'' \<mapsto> JNumber ''7'']))))\<rparr>"

definition refRC :: RunContext where
  "refRC = exampleRC\<lparr>EventJSON := ''event''\<rparr>"

definition nullHost :: Host where
  "nullHost = exampleHost\<lparr>json_Unmarshal_Event := (\<lambda>text event. (None, None))\<rparr>"

section \<open>Properties\<close>

subsection \<open>InitStepResults\<close>

lemma InitStepResults_loop_apply:
  "InitStepResults_loop keys m k =
     (if k \<in> set keys then Some \<lparr>Success = True, Outputs = None\<rparr> else m k)"
  by (induction keys arbitrary: m) auto

text \<open>
  Claim C10. After \<open>rc.InitStepResults(ks)\<close> the map \<open>StepResults\<close> is set, its keys
  are exactly the keys of \<open>ks\<close> whatever results were stored before, and every entry
  has \<open>Success = true\<close> and the nil \<open>Outputs\<close> map; the entry a step gets when it is
  entered has an allocated, empty \<open>Outputs\<close> map instead.
\<close>

theorem InitStepResults_fresh:
  "(\<exists>m. StepResults (InitStepResults rc ks) = Some m
        \<and> dom m = set ks
        \<and> (\<forall>k. k \<in> set ks \<longrightarrow> m k = Some \<lparr>Success = True, Outputs = None\<rparr>))
   \<and> stepsMap (enterStep step rc) (ID step) = Some \<lparr>Success = True, Outputs = Some Map.empty\<rparr>"
proof -
  let ?m = "InitStepResults_loop ks Map.empty"
  have "StepResults (InitStepResults rc ks) = Some ?m"
    by (simp add: InitStepResults_def)
  moreover have "dom ?m = set ks"
    by (auto simp: InitStepResults_loop_apply dom_def)
  moreover have "\<forall>k. k \<in> set ks \<longrightarrow> ?m k = Some \<lparr>Success = True, Outputs = None\<rparr>"
    by (simp add: InitStepResults_loop_apply)
  moreover have "stepsMap (enterStep step rc) (ID step)
      = Some \<lparr>Success = True, Outputs = Some Map.empty\<rparr>"
    by (simp add: enterStep_def Let_def stepsMap_def getStepsContext_def)
  ultimately show ?thesis by blast
qed

theorem InitStepResults_fresh_witness:
  "\<exists>m. StepResults (InitStepResults exampleRC [''a'', ''b'']) = Some m
       \<and> dom m = {''a'', ''b''}
       \<and> m ''a'' = Some \<lparr>Success = True, Outputs = None\<rparr>
       \<and> m ''old'' = None"
proof -
  obtain m where m: "StepResults (InitStepResults exampleRC [''a'', ''b'']) = Some m"
      "dom m = set [''a'', ''b'']"
      "\<forall>k. k \<in> set [''a'', ''b''] \<longrightarrow> m k = Some \<lparr>Success = True, Outputs = None\<rparr>"
    using InitStepResults_fresh [of exampleRC "[''a'', ''b'']"] by blast
  have "m ''a'' = Some \<lparr>Success = True, Outputs = None\<rparr>"
    using m(3) by simp
  moreover have "m ''old'' = None"
  proof -
    have "''old'' \<notin> dom m" unfolding m(2) by simp
    then show ?thesis by (simp only: domIff not_not)
  qed
  moreover have "dom m = {''a'', ''b''}"
    using m(2) by simp
  ultimately show ?thesis using m(1) by blast
qed

subsection \<open>GetEnv\<close>

lemma mergeMaps_three: "mergeMaps [a, b, c] = a ++ b ++ c"
  by (simp add: mergeMaps_def)

text \<open>
  Claim C8. \<open>GetEnv\<close> computes \<open>Env\<close> only when it is nil, as the merge of
  \<open>Config.Env\<close>, the workflow env and the job env, the job's value winning over the
  workflow's and the workflow's over the configuration's; a map that is already set
  is kept; the returned map is the one left in \<open>rc.Env\<close> and maps \<open>ACT\<close> to \<open>true\<close>.
\<close>

theorem GetEnv_merge:
  "fst (GetEnv rc) ''ACT'' = Some ''true''
   \<and> Env (snd (GetEnv rc)) = Some (fst (GetEnv rc))
   \<and> (\<forall>e. Env rc = Some e \<longrightarrow> fst (GetEnv rc) = e(''ACT'' \<mapsto> ''true''))
   \<and> (Env rc = None \<longrightarrow> (\<forall>k. k \<noteq> ''ACT'' \<longrightarrow>
         fst (GetEnv rc) k =
           (case JobEnvironment (RunJob (Run rc)) k of
              Some v \<Rightarrow> Some v
            | None \<Rightarrow> (case WorkflowEnv (Run rc) k of
                         Some v \<Rightarrow> Some v
                       | None \<Rightarrow> ConfigEnv (Config rc) k))))"
  by (auto simp: GetEnv_def Let_def mergeMaps_three map_add_def split: option.splits)

theorem GetEnv_merge_witness:
  "Env exampleRC = None
   \<and> fst (GetEnv exampleRC) ''A'' = Some ''job''
   \<and> fst (GetEnv exampleRC) ''B'' = Some ''workflow''
   \<and> fst (GetEnv exampleRC) ''C'' = Some ''config''
   \<and> fst (GetEnv exampleRC) ''ACT'' = Some ''true''
   \<and> fst (GetEnv (snd (GetEnv exampleRC))) = fst (GetEnv exampleRC)"
proof -
  have none: "Env exampleRC = None"
    by (simp add: exampleRC_def)
  have job: "JobEnvironment (RunJob (Run exampleRC)) = [''A'' \<mapsto> ''job'', ''ACT'' \<mapsto> ''no'']"
    and wf: "WorkflowEnv (Run exampleRC) = [''A'' \<mapsto> ''workflow'', ''B'' \<mapsto> ''workflow'']"
    and cfg: "ConfigEnv (Config exampleRC)
                = [''A'' \<mapsto> ''config'', ''B'' \<mapsto> ''config'', ''C'' \<mapsto> ''config'']"
    by (simp_all add: exampleRC_def exampleRun_def exampleJob_def exampleConfig_def)
  note th = GetEnv_merge [of exampleRC]
  from th none have key: "\<And>k. k \<noteq> ''ACT'' \<Longrightarrow> fst (GetEnv exampleRC) k =
           (case JobEnvironment (RunJob (Run exampleRC)) k of
              Some v \<Rightarrow> Some v
            | None \<Rightarrow> (case WorkflowEnv (Run exampleRC) k of
                         Some v \<Rightarrow> Some v
                       | None \<Rightarrow> ConfigEnv (Config exampleRC) k))"
    by blast
  have a: "fst (GetEnv exampleRC) ''A'' = Some ''job''"
    by (subst key) (simp_all add: job)
  have b: "fst (GetEnv exampleRC) ''B'' = Some ''workflow''"
    by (subst key) (simp_all add: job wf)
  have c: "fst (GetEnv exampleRC) ''C'' = Some ''config''"
    by (subst key) (simp_all add: job wf cfg)
  have act: "fst (GetEnv exampleRC) ''ACT'' = Some ''true''"
    using th by blast
  have env': "Env (snd (GetEnv exampleRC)) = Some (fst (GetEnv exampleRC))"
    using th by blast
  have "fst (GetEnv (snd (GetEnv exampleRC))) = (fst (GetEnv exampleRC))(''ACT'' \<mapsto> ''true'')"
    using GetEnv_merge [of "snd (GetEnv exampleRC)"] env' by blast
  also have "\<dots> = fst (GetEnv exampleRC)"
    using act by (rule fun_upd_idem)
  finally have again: "fst (GetEnv (snd (GetEnv exampleRC))) = fst (GetEnv exampleRC)" .
  show ?thesis using none a b c act again by blast
qed

subsection \<open>Container names\<close>

lemma hyphen_not_alnum: "\<not> isAlnum CHR ''-''"
  by (simp add: isAlnum_def)

lemma isDigit_isAlnum: "isDigit c \<Longrightarrow> isAlnum c"
  by (auto simp: isDigit_def isAlnum_def)

lemma ReplaceAllString_nonAlnum_chars: "\<forall>c \<in> set (ReplaceAllString_nonAlnum s). nameChar c"
  by (induction s rule: ReplaceAllString_nonAlnum.induct) (auto simp: nameChar_def)

lemma ReplaceAllString_nonAlnum_alnum:
  "\<forall>c \<in> set s. isAlnum c \<Longrightarrow> ReplaceAllString_nonAlnum s = s"
  by (induction s) auto

lemma runeLen_ascii: "byte c < 128 \<Longrightarrow> runeLen (c # s) = 1"
  by (simp add: runeLen.simps)

lemma runeLen_append_ascii:
  assumes "byte c < 128" and "s \<noteq> []"
  shows "runeLen (s @ c # t) = runeLen s"
proof -
  have nr: "\<And>lo hi. 128 \<le> lo \<Longrightarrow> \<not> inRange lo hi c"
    using assms(1) by (simp add: inRange_def)
  obtain b0 s1 where s: "s = b0 # s1" using assms(2) by (cases s) auto
  show ?thesis
  proof (cases s1)
    case Nil
    then show ?thesis using s nr by (auto simp: runeLen.simps split: list.splits)
  next
    case (Cons b1 s2)
    note s1 = this
    show ?thesis
    proof (cases s2)
      case Nil
      then show ?thesis using s s1 nr by (auto simp: runeLen.simps split: list.splits)
    next
      case (Cons b2 s3)
      then show ?thesis using s s1 nr by (cases s3) (auto simp: runeLen.simps split: list.splits)
    qed
  qed
qed

lemma runeLen_le_length: "runeLen s \<le> length s"
  by (cases s) (auto simp: runeLen.simps split: list.splits)

lemma drop_append_le: "n \<le> length xs \<Longrightarrow> drop n (xs @ ys) = drop n xs @ ys"
  by simp

lemma ReplaceAllString_nonAlnum_append_ascii:
  "byte c < 128 \<Longrightarrow>
   ReplaceAllString_nonAlnum (s @ c # t) = ReplaceAllString_nonAlnum s @ ReplaceAllString_nonAlnum (c # t)"
proof (induction s rule: ReplaceAllString_nonAlnum.induct)
  case 1
  show ?case by simp
next
  case (2 b cs)
  show ?case
  proof (cases "isAlnum b")
    case True
    then show ?thesis using 2 by simp
  next
    case False
    have len: "runeLen ((b # cs) @ c # t) = runeLen (b # cs)"
      using 2(3) by (intro runeLen_append_ascii) simp_all
    have le: "runeLen (b # cs) \<le> length (b # cs)" by (rule runeLen_le_length)
    have "drop (runeLen (b # cs)) ((b # cs) @ c # t) = drop (runeLen (b # cs)) (b # cs) @ c # t"
      using le by (rule drop_append_le)
    then show ?thesis
      using False 2(2) 2(3) len
      by simp
  qed
qed


lemma ReplaceAllString_nonAlnum_suffix:
  assumes "\<forall>d \<in> set ds. isDigit d"
  shows "ReplaceAllString_nonAlnum (s @ CHR ''-'' # ds) = ReplaceAllString_nonAlnum s @ CHR ''-'' # ds"
proof -
  have "byte CHR ''-'' < 128" by (simp add: byte_def)
  then have "ReplaceAllString_nonAlnum (s @ CHR ''-'' # ds)
      = ReplaceAllString_nonAlnum s @ ReplaceAllString_nonAlnum (CHR ''-'' # ds)"
    by (rule ReplaceAllString_nonAlnum_append_ascii)
  moreover have "ReplaceAllString_nonAlnum (CHR ''-'' # ds) = CHR ''-'' # ds"
    using assms
    by (simp add: hyphen_not_alnum runeLen_ascii byte_def ReplaceAllString_nonAlnum_alnum isDigit_isAlnum)
  ultimately show ?thesis by simp
qed

lemma ReplaceAll_hyphens_set: "set (ReplaceAll_hyphens s) \<subseteq> set s"
  by (induction s rule: ReplaceAll_hyphens.induct) auto

lemma ReplaceAll_hyphens_Nil: "ReplaceAll_hyphens s = [] \<longleftrightarrow> s = []"
  by (induction s rule: ReplaceAll_hyphens.induct) auto

lemma ReplaceAll_hyphens_last:
  "s \<noteq> [] \<Longrightarrow> last s \<noteq> CHR ''-'' \<Longrightarrow> last (ReplaceAll_hyphens s) \<noteq> CHR ''-''"
  by (induction s rule: ReplaceAll_hyphens.induct) (auto simp: ReplaceAll_hyphens_Nil)

lemma ReplaceAll_hyphens_no_hyphen:
  "CHR ''-'' \<notin> set s \<Longrightarrow> ReplaceAll_hyphens s = s"
  by (induction s rule: ReplaceAll_hyphens.induct) auto

lemma ReplaceAll_hyphens_hyphen_digits:
  assumes "ds \<noteq> []" and "CHR ''-'' \<notin> set ds"
  shows "ReplaceAll_hyphens (CHR ''-'' # ds) = CHR ''-'' # ds"
proof -
  obtain d ds' where ds: "ds = d # ds'" using assms(1) by (cases ds) auto
  have "d \<noteq> CHR ''-''" using assms(2) ds by auto
  then have "ReplaceAll_hyphens (CHR ''-'' # d # ds') = CHR ''-'' # ReplaceAll_hyphens (d # ds')"
    by simp
  also have "ReplaceAll_hyphens (d # ds') = d # ds'"
    using assms(2) ds by (intro ReplaceAll_hyphens_no_hyphen) simp
  finally show ?thesis using ds by simp
qed

lemma ReplaceAll_hyphens_suffix:
  assumes "ds \<noteq> []" and "CHR ''-'' \<notin> set ds"
  shows "\<exists>q. ReplaceAll_hyphens (s @ CHR ''-'' # ds) = q @ CHR ''-'' # ds"
proof (induction s rule: ReplaceAll_hyphens.induct)
  fix x y :: char and s :: string
  assume IH1: "x = CHR ''-'' \<and> y = CHR ''-'' \<Longrightarrow>
      \<exists>q. ReplaceAll_hyphens (s @ CHR ''-'' # ds) = q @ CHR ''-'' # ds"
    and IH2: "\<not> (x = CHR ''-'' \<and> y = CHR ''-'') \<Longrightarrow>
      \<exists>q. ReplaceAll_hyphens ((y # s) @ CHR ''-'' # ds) = q @ CHR ''-'' # ds"
  show "\<exists>q. ReplaceAll_hyphens ((x # y # s) @ CHR ''-'' # ds) = q @ CHR ''-'' # ds"
  proof (cases "x = CHR ''-'' \<and> y = CHR ''-''")
    case True
    then obtain q where "ReplaceAll_hyphens (s @ CHR ''-'' # ds) = q @ CHR ''-'' # ds"
      using IH1 by blast
    then have "ReplaceAll_hyphens ((x # y # s) @ CHR ''-'' # ds) = (CHR ''-'' # q) @ CHR ''-'' # ds"
      using True by simp
    then show ?thesis by blast
  next
    case False
    then obtain q where "ReplaceAll_hyphens ((y # s) @ CHR ''-'' # ds) = q @ CHR ''-'' # ds"
      using IH2 by blast
    then have "ReplaceAll_hyphens ((x # y # s) @ CHR ''-'' # ds) = (x # q) @ CHR ''-'' # ds"
      using False by auto
    then show ?thesis by blast
  qed
next
  have "ReplaceAll_hyphens ([] @ CHR ''-'' # ds) = [] @ CHR ''-'' # ds"
    using ReplaceAll_hyphens_hyphen_digits [OF assms] by simp
  then show "\<exists>q. ReplaceAll_hyphens ([] @ CHR ''-'' # ds) = q @ CHR ''-'' # ds" by blast
next
  fix v :: char
  show "\<exists>q. ReplaceAll_hyphens ([v] @ CHR ''-'' # ds) = q @ CHR ''-'' # ds"
  proof (cases "v = CHR ''-''")
    case True
    have "ReplaceAll_hyphens ([v] @ CHR ''-'' # ds) = [] @ CHR ''-'' # ds"
      using True ReplaceAll_hyphens_no_hyphen [OF assms(2)] by simp
    then show ?thesis by blast
  next
    case False
    have "ReplaceAll_hyphens ([v] @ CHR ''-'' # ds) = [v] @ CHR ''-'' # ds"
      using False ReplaceAll_hyphens_hyphen_digits [OF assms] by simp
    then show ?thesis by blast
  qed
qed


lemma Trim_keep:
  assumes "s \<noteq> []" and "hd s \<noteq> c" and "last s \<noteq> c"
  shows "Trim s c = s"
proof -
  obtain x xs where s: "s = x # xs" using assms(1) by (cases s) auto
  have l: "dropWhile (\<lambda>x. x = c) s = s" using s assms(2) by simp
  obtain y ys where r: "rev s = y # ys" using assms(1) by (cases "rev s") auto
  have "y = last s" using r by (metis hd_rev list.sel(1))
  then have "dropWhile (\<lambda>x. x = c) (y # ys) = y # ys"
    using assms(3) by simp
  then have "dropWhile (\<lambda>x. x = c) (rev s) = rev s"
    by (simp only: r)
  then show ?thesis using l by (simp add: Trim_def)
qed

lemma jobContainerName_unfold:
  "jobContainerName rc =
     Inr (ReplaceAll_hyphens (Trim (''act-'' @ ReplaceAllString_nonAlnum (String rc)) CHR ''-''))"
  by (simp add: jobContainerName_def createContainerName_def FindStringSubmatch_num_def
      isDigit_def isAlnum_def trimToLen_def)

lemma ReplaceAll_hyphens_Cons: "x \<noteq> CHR ''-'' \<Longrightarrow> ReplaceAll_hyphens (x # s) = x # ReplaceAll_hyphens s"
  by (cases s) simp_all

lemma ReplaceAll_hyphens_append: "CHR ''-'' \<notin> set a \<Longrightarrow> ReplaceAll_hyphens (a @ s) = a @ ReplaceAll_hyphens s"
proof (induction a)
  case Nil
  show ?case by simp
next
  case (Cons x a)
  then have "x \<noteq> CHR ''-''" and "CHR ''-'' \<notin> set a" by auto
  then show ?case using Cons.IH by (simp add: ReplaceAll_hyphens_Cons)
qed

lemma ReplaceAll_hyphens_single:
  "s \<noteq> [] \<Longrightarrow> hd s \<noteq> CHR ''-'' \<Longrightarrow> ReplaceAll_hyphens (CHR ''-'' # s) = CHR ''-'' # ReplaceAll_hyphens s"
  by (cases s) simp_all

lemma Trim_act:
  "\<exists>w. Trim (''act-'' @ r) CHR ''-'' = ''act'' @ w
       \<and> set w \<subseteq> insert CHR ''-'' (set r)
       \<and> (w = [] \<or> last w \<noteq> CHR ''-'')"
proof -
  let ?P = "\<lambda>x. x = CHR ''-''"
  let ?d = "dropWhile ?P (rev r)"
  have T: "Trim (''act-'' @ r) CHR ''-'' = rev (dropWhile ?P (rev r @ ''-tca''))"
    by (simp add: Trim_def)
  show ?thesis
  proof (cases "\<forall>x \<in> set (rev r). ?P x")
    case True
    then have "dropWhile ?P (rev r @ ''-tca'') = dropWhile ?P ''-tca''"
      by (intro dropWhile_append2) blast
    then have "Trim (''act-'' @ r) CHR ''-'' = ''act'' @ []"
      unfolding T by simp
    then show ?thesis by (intro exI [of _ "[]"]) simp
  next
    case False
    then obtain x where "x \<in> set (rev r)" "\<not> ?P x" by blast
    then have "dropWhile ?P (rev r @ ''-tca'') = ?d @ ''-tca''"
      by (rule dropWhile_append1)
    then have eq: "Trim (''act-'' @ r) CHR ''-'' = ''act'' @ (CHR ''-'' # rev ?d)"
      unfolding T by simp
    have ne: "?d \<noteq> []" using False unfolding dropWhile_eq_Nil_conv by blast
    have "\<not> ?P (hd ?d)" using ne by (rule hd_dropWhile)
    then have l: "last (CHR ''-'' # rev ?d) \<noteq> CHR ''-''" using ne by (simp add: last_rev)
    have "set ?d \<subseteq> set (rev r)" using set_dropWhileD by fast
    then have "set (CHR ''-'' # rev ?d) \<subseteq> insert CHR ''-'' (set r)" by auto
    then show ?thesis using eq l by (intro exI [of _ "CHR ''-'' # rev ?d"]) simp
  qed
qed

lemma isAlnum_not_hyphen: "isAlnum d \<Longrightarrow> d \<noteq> CHR ''-''"
  using hyphen_not_alnum by blast

lemma isDigit_not_hyphen: "isDigit d \<Longrightarrow> d \<noteq> CHR ''-''"
  using isAlnum_not_hyphen isDigit_isAlnum by blast

lemma jobContainerName_chars:
  "\<exists>n. jobContainerName rc = Inr n \<and> take 3 n = ''act''
       \<and> (\<forall>c \<in> set n. isAlnum c \<or> c = CHR ''-'') \<and> last n \<noteq> CHR ''-''"
proof -
  let ?r = "ReplaceAllString_nonAlnum (String rc)"
  obtain w where w: "Trim (''act-'' @ ?r) CHR ''-'' = ''act'' @ w"
      "set w \<subseteq> insert CHR ''-'' (set ?r)" "w = [] \<or> last w \<noteq> CHR ''-''"
    using Trim_act by blast
  let ?n = "''act'' @ ReplaceAll_hyphens w"
  have n: "jobContainerName rc = Inr ?n"
    unfolding jobContainerName_unfold w(1) by (simp add: ReplaceAll_hyphens_Cons)
  have "set (ReplaceAll_hyphens w) \<subseteq> insert CHR ''-'' (set ?r)"
    using ReplaceAll_hyphens_set w(2) by blast
  moreover have "isAlnum CHR ''a''" "isAlnum CHR ''c''" "isAlnum CHR ''t''"
    by (simp_all add: isAlnum_def)
  ultimately have chars: "\<forall>c \<in> set ?n. isAlnum c \<or> c = CHR ''-''"
    using ReplaceAllString_nonAlnum_chars [of "String rc"]
    by (auto simp: nameChar_def)
  have last: "last ?n \<noteq> CHR ''-''"
  proof (cases "w = []")
    case True
    then show ?thesis by simp
  next
    case False
    then have "last (ReplaceAll_hyphens w) \<noteq> CHR ''-''"
      using w(3) by (simp add: ReplaceAll_hyphens_last)
    then show ?thesis using False by (simp add: ReplaceAll_hyphens_Nil)
  qed
  show ?thesis using n chars last by simp
qed

lemma jobContainerName_suffix:
  assumes "Name rc = p @ CHR ''-'' # ds" and "ds \<noteq> []" and "\<forall>d \<in> set ds. isDigit d"
  shows "\<exists>q. jobContainerName rc = Inr (q @ CHR ''-'' # ds)"
proof -
  let ?s0 = "WorkflowName (Run rc) @ ''/'' @ p"
  have nh: "CHR ''-'' \<notin> set ds" using assms(3) isDigit_not_hyphen by blast
  have "String rc = ?s0 @ CHR ''-'' # ds"
    using assms(1) by (simp add: String_def)
  then have r: "ReplaceAllString_nonAlnum (String rc) = ReplaceAllString_nonAlnum ?s0 @ CHR ''-'' # ds"
    using assms(3) by (simp only: ReplaceAllString_nonAlnum_suffix)
  let ?j = "(''act-'' @ ReplaceAllString_nonAlnum ?s0) @ CHR ''-'' # ds"
  have "last ?j = last ds" using assms(2) by simp
  then have "last ?j \<noteq> CHR ''-''" using nh assms(2) last_in_set by metis
  then have "Trim ?j CHR ''-'' = ?j"
    by (intro Trim_keep) simp_all
  moreover obtain q where "ReplaceAll_hyphens ?j = q @ CHR ''-'' # ds"
    using ReplaceAll_hyphens_suffix [OF assms(2) nh] by blast
  ultimately have "jobContainerName rc = Inr (q @ CHR ''-'' # ds)"
    unfolding jobContainerName_unfold r by simp
  then show ?thesis by blast
qed

lemma jobContainerName_alnum:
  assumes "\<forall>c \<in> set (WorkflowName (Run rc)). isAlnum c" and "WorkflowName (Run rc) \<noteq> []"
    and "\<forall>c \<in> set (Name rc). isAlnum c" and "Name rc \<noteq> []"
  shows "jobContainerName rc = Inr (''act-'' @ WorkflowName (Run rc) @ ''-'' @ Name rc)"
proof -
  let ?w = "WorkflowName (Run rc)" and ?j = "Name rc"
  have wh: "CHR ''-'' \<notin> set ?w" and jh: "CHR ''-'' \<notin> set ?j"
    using assms(1,3) isAlnum_not_hyphen by blast+
  have "ReplaceAllString_nonAlnum (?w @ CHR ''/'' # ?j)
      = ReplaceAllString_nonAlnum ?w @ ReplaceAllString_nonAlnum (CHR ''/'' # ?j)"
    by (intro ReplaceAllString_nonAlnum_append_ascii) (simp add: byte_def)
  also have "ReplaceAllString_nonAlnum ?w = ?w"
    using assms(1) by (rule ReplaceAllString_nonAlnum_alnum)
  also have "ReplaceAllString_nonAlnum (CHR ''/'' # ?j) = CHR ''-'' # ?j"
    using assms(3) by (simp add: isAlnum_def runeLen_ascii byte_def ReplaceAllString_nonAlnum_alnum)
  finally have r: "ReplaceAllString_nonAlnum (String rc) = ?w @ CHR ''-'' # ?j"
    by (simp add: String_def)
  let ?s = "''act-'' @ ?w @ CHR ''-'' # ?j"
  have "last ?s = last ?j" using assms(4) by simp
  then have "last ?s \<noteq> CHR ''-''" using jh assms(4) last_in_set by metis
  then have t: "Trim ?s CHR ''-'' = ?s" by (intro Trim_keep) simp_all
  have hw: "hd ?w \<noteq> CHR ''-''" using wh assms(2) hd_in_set by metis
  have "ReplaceAll_hyphens ?s = ''act'' @ ReplaceAll_hyphens (CHR ''-'' # ?w @ CHR ''-'' # ?j)"
    by (simp add: ReplaceAll_hyphens_Cons)
  also have "ReplaceAll_hyphens (CHR ''-'' # ?w @ CHR ''-'' # ?j)
      = CHR ''-'' # ReplaceAll_hyphens (?w @ CHR ''-'' # ?j)"
    using hw assms(2) by (intro ReplaceAll_hyphens_single) simp_all
  also have "ReplaceAll_hyphens (?w @ CHR ''-'' # ?j) = ?w @ ReplaceAll_hyphens (CHR ''-'' # ?j)"
    using wh by (rule ReplaceAll_hyphens_append)
  also have "ReplaceAll_hyphens (CHR ''-'' # ?j) = CHR ''-'' # ?j"
    using assms(4) jh by (rule ReplaceAll_hyphens_hyphen_digits)
  finally have "ReplaceAll_hyphens ?s = ?s" by simp
  then show ?thesis
    unfolding jobContainerName_unfold r using t by simp
qed

text \<open>
  Claim C2, as the code has it. For every workflow name and job name the container name
  \<open>jobContainerName\<close> is defined, begins with \<open>act\<close>, consists of ASCII letters, digits
  and hyphens only and neither begins nor ends with a hyphen; a trailing \<open>-<digits>\<close>
  of the job name is kept at the end of the result; and the workflow/job part is copied
  at its full length: for alphanumeric non-empty names the result is exactly
  \<open>act-<workflow>-<job>\<close>, however long.
\<close>

theorem jobContainerName_wellformed:
  "\<exists>n. jobContainerName rc = Inr n
       \<and> take 3 n = ''act''
       \<and> (\<forall>c \<in> set n. isAlnum c \<or> c = CHR ''-'')
       \<and> hd n \<noteq> CHR ''-'' \<and> last n \<noteq> CHR ''-''
       \<and> (\<forall>p ds. Name rc = p @ CHR ''-'' # ds \<and> ds \<noteq> [] \<and> (\<forall>d \<in> set ds. isDigit d)
             \<longrightarrow> (\<exists>q. n = q @ CHR ''-'' # ds))
       \<and> ((\<forall>c \<in> set (WorkflowName (Run rc)). isAlnum c) \<and> WorkflowName (Run rc) \<noteq> []
            \<and> (\<forall>c \<in> set (Name rc). isAlnum c) \<and> Name rc \<noteq> []
             \<longrightarrow> n = ''act-'' @ WorkflowName (Run rc) @ ''-'' @ Name rc)"
proof -
  obtain n where n: "jobContainerName rc = Inr n" "take 3 n = ''act''"
      "\<forall>c \<in> set n. isAlnum c \<or> c = CHR ''-''" "last n \<noteq> CHR ''-''"
    using jobContainerName_chars by blast
  have "hd n = hd (take 3 n)" by (cases n) simp_all
  then have hd: "hd n \<noteq> CHR ''-''" using n(2) by simp
  have suffix: "\<exists>q. n = q @ CHR ''-'' # ds"
    if "Name rc = p @ CHR ''-'' # ds \<and> ds \<noteq> [] \<and> (\<forall>d \<in> set ds. isDigit d)" for p ds
    using jobContainerName_suffix [of rc p ds] that n(1) by auto
  have exact: "n = ''act-'' @ WorkflowName (Run rc) @ ''-'' @ Name rc"
    if "(\<forall>c \<in> set (WorkflowName (Run rc)). isAlnum c) \<and> WorkflowName (Run rc) \<noteq> []
        \<and> (\<forall>c \<in> set (Name rc). isAlnum c) \<and> Name rc \<noteq> []"
    using jobContainerName_alnum [of rc] that n(1) by simp
  show ?thesis
    using n hd suffix exact by (intro exI [of _ n]) blast
qed

lemma jobContainerName_exampleRC: "jobContainerName exampleRC = Inr ''act-ci-build-3''"
  by (simp add: jobContainerName_unfold String_def exampleRC_def exampleRun_def Trim_def
      isAlnum_def runeLen.simps byte_def inRange_def)

theorem jobContainerName_wellformed_witness:
  "jobContainerName exampleRC = Inr ''act-ci-build-3''
   \<and> Name exampleRC = ''build'' @ CHR ''-'' # ''3''
   \<and> (\<exists>q. ''act-ci-build-3'' = q @ CHR ''-'' # ''3'')
   \<and> jobContainerName (exampleRC\<lparr>Name := ''build''\<rparr>) = Inr ''act-ci-build''"
proof -
  obtain n where n: "jobContainerName exampleRC = Inr n"
    and suffix: "\<forall>p ds. Name exampleRC = p @ CHR ''-'' # ds \<and> ds \<noteq> [] \<and> (\<forall>d \<in> set ds. isDigit d)
             \<longrightarrow> (\<exists>q. n = q @ CHR ''-'' # ds)"
    using jobContainerName_wellformed [of exampleRC] by blast
  have eq: "n = ''act-ci-build-3''"
    using n jobContainerName_exampleRC by simp
  have name: "Name exampleRC = ''build'' @ CHR ''-'' # ''3''"
    by (simp add: exampleRC_def)
  have "(\<forall>d \<in> set ''3''. isDigit d)" by (simp add: isDigit_def)
  then have "\<exists>q. n = q @ CHR ''-'' # ''3''"
    using suffix name by blast
  then have ex: "\<exists>q. ''act-ci-build-3'' = q @ CHR ''-'' # ''3''"
    unfolding eq .
  let ?rc = "exampleRC\<lparr>Name := ''build''\<rparr>"
  obtain m where m: "jobContainerName ?rc = Inr m"
    and exact: "(\<forall>c \<in> set (WorkflowName (Run ?rc)). isAlnum c) \<and> WorkflowName (Run ?rc) \<noteq> []
            \<and> (\<forall>c \<in> set (Name ?rc). isAlnum c) \<and> Name ?rc \<noteq> []
             \<longrightarrow> m = ''act-'' @ WorkflowName (Run ?rc) @ ''-'' @ Name ?rc"
    using jobContainerName_wellformed [of ?rc] by blast
  have "(\<forall>c \<in> set (WorkflowName (Run ?rc)). isAlnum c) \<and> WorkflowName (Run ?rc) \<noteq> []
            \<and> (\<forall>c \<in> set (Name ?rc). isAlnum c) \<and> Name ?rc \<noteq> []"
    by (simp add: exampleRC_def exampleRun_def isAlnum_def)
  then have "m = ''act-'' @ WorkflowName (Run ?rc) @ ''-'' @ Name ?rc"
    using exact by (rule rev_mp)
  then have "m = ''act-ci-build''"
    by (simp add: exampleRC_def exampleRun_def)
  then show ?thesis using n eq name ex m by simp
qed

text \<open>
  The claim C2 as stated fails: the name below has more than 30 characters after the
  \<open>act-\<close> prefix (the last part is never cut), and it keeps a \<open>--\<close> (the three
  separators \<open>///\<close> become \<open>---\<close>, of which the single pass of \<open>ReplaceAll\<close> leaves
  two), so it does not match \<open>^[A-Za-z0-9]+(-[A-Za-z0-9]+)*$\<close>.
\<close>

theorem jobContainerName_counterexample:
  "jobContainerName longNameRC
     = Inr ''act-continuous-integration-and-release-pipeline-build--test''
   \<and> \<not> matchesNamePattern ''act-continuous-integration-and-release-pipeline-build--test''
   \<and> 30 < length (drop 4 ''act-continuous-integration-and-release-pipeline-build--test'')"
proof -
  have "jobContainerName longNameRC
     = Inr ''act-continuous-integration-and-release-pipeline-build--test''"
    by (simp add: jobContainerName_unfold String_def longNameRC_def exampleRC_def exampleRun_def
        Trim_def isAlnum_def runeLen.simps byte_def inRange_def)
  moreover have "\<not> matchesNamePattern ''act-continuous-integration-and-release-pipeline-build--test''"
    by (simp add: isAlnum_def)
  ultimately show ?thesis by simp
qed

subsection \<open>Binds and mounts\<close>




subsection \<open>Teardown\<close>

text \<open>
  Claim C6, as the code has it. The executor of \<open>stopJobContainer\<close> returns success
  and calls nothing when \<open>JobContainer\<close> is nil or \<open>ReuseContainers\<close> is set. Otherwise
  it calls \<open>Remove()\<close>; then, if \<open>Remove()\<close> succeeded and the handle is not a
  HostExecutor, the removal of the volume named after the container; and \<open>Close()\<close>
  last in every case. Each call receives the detached context: the logger of the
  caller's context, not cancelled, no other binding.
\<close>

theorem stopJobContainer_calls:
  assumes "jobContainerName rc = Inr name"
  shows "snd (stopJobContainer h rc ctx log) =
     log @ (case JobContainer rc of
              None \<Rightarrow> []
            | Some c \<Rightarrow>
                if ReuseContainers (Config rc) then []
                else [CallRemove \<lparr>LoggerBinding = Some (Logger ctx), Cancelled = False, Bindings = []\<rparr>]
                   @ (if RemoveOutcome c = None \<and> \<not> IsHostExecutor c
                      then [CallVolumeRemove name False
                              \<lparr>LoggerBinding = Some (Logger ctx), Cancelled = False, Bindings = []\<rparr>]
                      else [])
                   @ [CallClose \<lparr>LoggerBinding = Some (Logger ctx), Cancelled = False, Bindings = []\<rparr>])
   \<and> (JobContainer rc = None \<or> ReuseContainers (Config rc)
        \<longrightarrow> stopJobContainer h rc ctx log = (None, log))"
proof -
  let ?d = "\<lparr>LoggerBinding = Some (Logger ctx), Cancelled = False, Bindings = []\<rparr>"
  have d: "WithLogger Background (Logger ctx) = ?d"
    by (simp add: WithLogger_def Background_def)
  have dd: "WithLogger Background (Logger ?d) = ?d"
    by (simp add: WithLogger_def Background_def Logger_def)
  show ?thesis
  proof (cases "JobContainer rc")
    case None
    then show ?thesis by (simp add: stopJobContainer_def)
  next
    case (Some c)
    show ?thesis
    proof (cases "ReuseContainers (Config rc)")
      case True
      then show ?thesis using Some by (simp add: stopJobContainer_def)
    next
      case False
      then show ?thesis
        using Some assms
        by (cases "RemoveOutcome c"; cases "CloseOutcome c"; cases "VolumeRemoveOutcome h name False")
           (simp_all add: stopJobContainer_def d dd Finally_def Then_def If_cond_def Remove_def Close_def
              NewDockerVolumeRemoveExecutor_def)
    qed
  qed
qed

theorem stopJobContainer_calls_witness:
  "jobContainerName exampleRC = Inr ''act-ci-build-3''
   \<and> snd (stopJobContainer exampleHost (exampleRC\<lparr>JobContainer := Some exampleContainer\<rparr>) exampleContext [])
     = [CallRemove \<lparr>LoggerBinding = Some ''job-logger'', Cancelled = False, Bindings = []\<rparr>,
        CallVolumeRemove ''act-ci-build-3'' False
          \<lparr>LoggerBinding = Some ''job-logger'', Cancelled = False, Bindings = []\<rparr>,
        CallClose \<lparr>LoggerBinding = Some ''job-logger'', Cancelled = False, Bindings = []\<rparr>]
   \<and> stopJobContainer exampleHost exampleRC exampleContext [] = (None, [])"
proof -
  let ?rc = "exampleRC\<lparr>JobContainer := Some exampleContainer\<rparr>"
  have n: "jobContainerName ?rc = Inr ''act-ci-build-3''"
    using jobContainerName_exampleRC by (simp add: jobContainerName_def String_def)
  have c: "JobContainer ?rc = Some exampleContainer" "\<not> ReuseContainers (Config ?rc)"
    by (simp_all add: exampleRC_def exampleConfig_def)
  have "snd (stopJobContainer exampleHost ?rc exampleContext [])
     = [CallRemove \<lparr>LoggerBinding = Some ''job-logger'', Cancelled = False, Bindings = []\<rparr>,
        CallVolumeRemove ''act-ci-build-3'' False
          \<lparr>LoggerBinding = Some ''job-logger'', Cancelled = False, Bindings = []\<rparr>,
        CallClose \<lparr>LoggerBinding = Some ''job-logger'', Cancelled = False, Bindings = []\<rparr>]"
    using stopJobContainer_calls [OF n, of exampleHost exampleContext "[]"] c
    by (simp add: exampleContainer_def Logger_def exampleContext_def)
  moreover have "JobContainer exampleRC = None"
    by (simp add: exampleRC_def)
  then have "stopJobContainer exampleHost exampleRC exampleContext [] = (None, [])"
    using stopJobContainer_calls [OF jobContainerName_exampleRC, of exampleHost exampleContext "[]"]
    by blast
  ultimately show ?thesis using jobContainerName_exampleRC by (intro conjI)
qed

text \<open>
  The claim C6 as stated fails: when \<open>Remove()\<close> reports an error, \<open>Then\<close> does not run
  the volume removal although the handle is not a HostExecutor.
\<close>

theorem stopJobContainer_counterexample:
  "\<not> IsHostExecutor failingContainer
   \<and> stopJobContainer exampleHost (exampleRC\<lparr>JobContainer := Some failingContainer\<rparr>) exampleContext []
     = (Some (Err ''no such container''),
        [CallRemove \<lparr>LoggerBinding = Some ''job-logger'', Cancelled = False, Bindings = []\<rparr>,
         CallClose \<lparr>LoggerBinding = Some ''job-logger'', Cancelled = False, Bindings = []\<rparr>])"
proof -
  let ?rc = "exampleRC\<lparr>JobContainer := Some failingContainer\<rparr>"
  have n: "jobContainerName ?rc = Inr ''act-ci-build-3''"
    using jobContainerName_exampleRC by (simp add: jobContainerName_def String_def)
  have c: "\<not> ReuseContainers (Config exampleRC)"
    by (simp add: exampleRC_def exampleConfig_def)
  have f: "\<not> IsHostExecutor failingContainer"
      "RemoveOutcome failingContainer = Some ''no such container''"
      "CloseOutcome failingContainer = None"
    by (simp_all add: failingContainer_def)
  show ?thesis
    by (simp add: stopJobContainer_def n c f Finally_def Then_def If_cond_def
        Remove_def Close_def WithLogger_def Background_def Logger_def exampleContext_def)
qed

subsection \<open>The environment of the runner\<close>

lemma Replace_first_hyphen_found:
  "CHR ''-'' \<notin> set a \<Longrightarrow> Replace_first_hyphen (a @ CHR ''-'' # b) = a @ b"
  by (induction a) auto

lemma Replace_first_hyphen_none: "CHR ''-'' \<notin> set s \<Longrightarrow> Replace_first_hyphen s = s"
  by (induction s) auto

lemma SplitN_dot_head_found: "CHR ''.'' \<notin> set a \<Longrightarrow> SplitN_dot_head (a @ CHR ''.'' # b) = a"
  by (induction a) (auto simp: SplitN_dot_head_def)

lemma SplitN_dot_head_none: "CHR ''.'' \<notin> set s \<Longrightarrow> SplitN_dot_head s = s"
  by (induction s) (auto simp: SplitN_dot_head_def)

lemma ImageOS_loop_key:
  "ImageOS_loop ee ls env ''ImageOS'' =
     (case filter (\<lambda>l. l \<noteq> '''') (map (Interpolate ee) ls) of
        [] \<Rightarrow> env ''ImageOS''
      | x # xs \<Rightarrow> Some (if last (x # xs) = ''ubuntu-latest'' then ''ubuntu20''
                       else SplitN_dot_head (Replace_first_hyphen (last (x # xs)))))"
proof (induction ls arbitrary: env)
  case Nil
  show ?case by simp
next
  case (Cons l ls)
  show ?case
  proof (cases "Interpolate ee l = ''''")
    case True
    then show ?thesis using Cons [of env] by simp
  next
    case False
    let ?v = "if Interpolate ee l = ''ubuntu-latest'' then ''ubuntu20''
              else SplitN_dot_head (Replace_first_hyphen (Interpolate ee l))"
    have step: "ImageOS_loop ee (l # ls) env = ImageOS_loop ee ls (env(''ImageOS'' \<mapsto> ?v))"
      using False by (simp add: Let_def)
    show ?thesis
      unfolding step Cons [of "env(''ImageOS'' \<mapsto> ?v)"]
      using False by (simp split: list.splits)
  qed
qed

lemma githubEnv_vars_ImageOS: "githubEnv_vars github rc env ''ImageOS'' = env ''ImageOS''"
  by (simp add: githubEnv_vars_def Let_def)

text \<open>
  Claim C7, as the code has it. In the map \<open>withGithubEnv\<close> returns, \<open>ImageOS\<close> is
  derived from the last \<open>runs-on\<close> label whose interpolation is not empty (the loop
  has no \<open>break\<close>: each such label overwrites the value): \<open>ubuntu-latest\<close> gives
  \<open>ubuntu20\<close>, any other label gives the label with its first hyphen removed, cut
  before its first dot. With no such label \<open>ImageOS\<close> keeps the value the map had.
\<close>

theorem withGithubEnv_ImageOS:
  assumes "withGithubEnv h rc env = Inr env'"
  shows "env' ''ImageOS'' =
     (case filter (\<lambda>l. l \<noteq> '''') (map (Interpolate (ExprEval rc)) (RunsOn (RunJob (Run rc)))) of
        [] \<Rightarrow> env ''ImageOS''
      | l # ls \<Rightarrow> Some (if last (l # ls) = ''ubuntu-latest'' then ''ubuntu20''
                       else SplitN_dot_head (Replace_first_hyphen (last (l # ls)))))"
proof -
  obtain github where "getGithubContext h rc = Inr github"
    and "env' = ImageOS_loop (ExprEval rc) (RunsOn (RunJob (Run rc))) (githubEnv_vars github rc env)"
    using assms by (auto simp: withGithubEnv_def split: sum.splits)
  then show ?thesis
    by (simp only: ImageOS_loop_key githubEnv_vars_ImageOS)
qed

lemma githubEnv_vars_add: "githubEnv_vars github rc env = env ++ githubEnv_vars github rc Map.empty"
  by (simp add: githubEnv_vars_def Let_def)

lemma ImageOS_loop_add: "ImageOS_loop ee ls env = env ++ ImageOS_loop ee ls Map.empty"
proof (induction ls arbitrary: env)
  case Nil
  show ?case by simp
next
  case (Cons l ls)
  have upd: "ImageOS_loop ee ls (env(k \<mapsto> v)) = env ++ ImageOS_loop ee ls (Map.empty(k \<mapsto> v))" for k v
  proof -
    have "ImageOS_loop ee ls (env(k \<mapsto> v)) = env(k \<mapsto> v) ++ ImageOS_loop ee ls Map.empty"
      by (rule Cons)
    also have "\<dots> = env ++ (Map.empty(k \<mapsto> v) ++ ImageOS_loop ee ls Map.empty)"
      by (simp add: map_add_def fun_eq_iff split: option.splits)
    also have "Map.empty(k \<mapsto> v) ++ ImageOS_loop ee ls Map.empty = ImageOS_loop ee ls (Map.empty(k \<mapsto> v))"
      by (rule Cons [symmetric])
    finally show ?thesis .
  qed
  show ?case
    using upd Cons [of env] by (simp add: Let_def)
qed

lemma map_add_overlay_twice: "((m ++ a ++ b) ++ a) ++ b = m ++ a ++ b"
  by (auto simp: map_add_def fun_eq_iff split: option.splits)

text \<open>
  Claim C9. For a fixed run context (and fixed answers of the repository look-ups and of
  the JSON parser), applying \<open>withGithubEnv\<close> to the map it returned gives that map
  again; and when the github context cannot be built (the panic of \<open>applyDefaults\<close>),
  it cannot be built for any map.
\<close>

theorem withGithubEnv_idempotent:
  "(\<forall>env'. withGithubEnv h rc env = Inr env' \<longrightarrow> withGithubEnv h rc env' = Inr env')
   \<and> (\<forall>e. withGithubEnv h rc env = Inl e \<longrightarrow> (\<forall>env2. withGithubEnv h rc env2 = Inl e))"
proof (cases "getGithubContext h rc")
  case (Inl e)
  then show ?thesis by (simp add: withGithubEnv_def)
next
  case (Inr github)
  let ?V = "githubEnv_vars github rc Map.empty"
  let ?L = "ImageOS_loop (ExprEval rc) (RunsOn (RunJob (Run rc))) Map.empty"
  have W: "withGithubEnv h rc m = Inr (m ++ ?V ++ ?L)" for m
  proof -
    have "withGithubEnv h rc m
        = Inr (ImageOS_loop (ExprEval rc) (RunsOn (RunJob (Run rc))) (githubEnv_vars github rc m))"
      using Inr by (simp add: withGithubEnv_def)
    also have "ImageOS_loop (ExprEval rc) (RunsOn (RunJob (Run rc))) (githubEnv_vars github rc m)
        = githubEnv_vars github rc m ++ ?L"
      by (rule ImageOS_loop_add)
    also have "githubEnv_vars github rc m = m ++ ?V"
      by (rule githubEnv_vars_add)
    finally show ?thesis .
  qed
  have "withGithubEnv h rc (env ++ ?V ++ ?L) = Inr (env ++ ?V ++ ?L)"
    unfolding W [of "env ++ ?V ++ ?L"] by (simp only: map_add_overlay_twice)
  then show ?thesis using W [of env] by simp
qed

lemma withGithubEnv_macRC:
  "case withGithubEnv exampleHost macRC Map.empty of Inl e \<Rightarrow> False | Inr e \<Rightarrow> True"
  by code_simp

theorem withGithubEnv_ImageOS_witness:
  "\<exists>env'. withGithubEnv exampleHost macRC Map.empty = Inr env' \<and> env' ''ImageOS'' = Some ''macos10''"
proof -
  obtain env' where e: "withGithubEnv exampleHost macRC Map.empty = Inr env'"
    using withGithubEnv_macRC by (cases "withGithubEnv exampleHost macRC Map.empty") simp_all
  have labels: "RunsOn (RunJob (Run macRC)) = [''macos-10.15'', '''']"
    and ee: "Interpolate (ExprEval macRC) = (\<lambda>s. s)"
    by (simp_all add: macRC_def exampleRC_def exampleEvaluator_def)
  have "env' ''ImageOS'' = Some ''macos10''"
    using withGithubEnv_ImageOS [OF e]
    by (simp add: labels ee SplitN_dot_head_def)
  then show ?thesis using e by blast
qed

text \<open>
  The claim C7 as stated fails: the first non-empty label is \<open>ubuntu-latest\<close>, and
  \<open>ImageOS\<close> is \<open>windows2019\<close>, from the second label.
\<close>

theorem withGithubEnv_ImageOS_counterexample:
  "RunsOn (RunJob (Run exampleRC)) = [''ubuntu-latest'', ''windows-2019'']
   \<and> Interpolate (ExprEval exampleRC) ''ubuntu-latest'' = ''ubuntu-latest''
   \<and> (case withGithubEnv exampleHost exampleRC Map.empty of
        Inl e \<Rightarrow> False
      | Inr env' \<Rightarrow> env' ''ImageOS'' = Some ''windows2019'')"
  by code_simp

lemma withGithubEnv_exampleRC:
  "case withGithubEnv exampleHost exampleRC [''CI'' \<mapsto> ''false'', ''HOME'' \<mapsto> ''/root''] of
     Inl e \<Rightarrow> False
   | Inr env' \<Rightarrow> env' ''CI'' = Some ''true'' \<and> env' ''HOME'' = Some ''/root''"
  by code_simp

lemma withGithubEnv_refRC:
  "case withGithubEnv refHost refRC Map.empty of
     Inl e \<Rightarrow> e = Panic ''interface conversion: interface {} is float64, not string''
   | Inr env' \<Rightarrow> False"
  by code_simp

text \<open>
  An event that parses to the nil map (the JSON text \<open>null\<close>) has no \<open>ref\<close>, and writing
  the default branch into it panics.
\<close>

lemma withGithubEnv_nil_event:
  "(case withDefaultBranch ''master'' None of
      Inl e \<Rightarrow> e = Panic ''assignment to entry in nil map''
    | Inr event \<Rightarrow> False)
   \<and> (case withGithubEnv nullHost refRC Map.empty of
        Inl e \<Rightarrow> e = Panic ''assignment to entry in nil map''
      | Inr env' \<Rightarrow> False)"
  by code_simp

theorem withGithubEnv_idempotent_witness:
  "(\<exists>env'. withGithubEnv exampleHost exampleRC [''CI'' \<mapsto> ''false'', ''HOME'' \<mapsto> ''/root''] = Inr env'
        \<and> withGithubEnv exampleHost exampleRC env' = Inr env'
        \<and> env' ''CI'' = Some ''true'' \<and> env' ''HOME'' = Some ''/root'')
   \<and> withGithubEnv refHost refRC Map.empty
       = Inl (Panic ''interface conversion: interface {} is float64, not string'')
   \<and> withGithubEnv refHost refRC [''CI'' \<mapsto> ''false'']
       = Inl (Panic ''interface conversion: interface {} is float64, not string'')"
proof -
  let ?env = "[''CI'' \<mapsto> ''false'', ''HOME'' \<mapsto> ''/root'']"
  obtain env' where e: "withGithubEnv exampleHost exampleRC ?env = Inr env'"
    and v: "env' ''CI'' = Some ''true''" "env' ''HOME'' = Some ''/root''"
    using withGithubEnv_exampleRC
    by (cases "withGithubEnv exampleHost exampleRC ?env") simp_all
  have "withGithubEnv exampleHost exampleRC env' = Inr env'"
    using withGithubEnv_idempotent [of exampleHost exampleRC ?env] e by blast
  then have a: "\<exists>env'. withGithubEnv exampleHost exampleRC ?env = Inr env'
        \<and> withGithubEnv exampleHost exampleRC env' = Inr env'
        \<and> env' ''CI'' = Some ''true'' \<and> env' ''HOME'' = Some ''/root''"
    using e v by blast
  let ?p = "Panic ''interface conversion: interface {} is float64, not string''"
  have p: "withGithubEnv refHost refRC Map.empty = Inl ?p"
    using withGithubEnv_refRC
    by (cases "withGithubEnv refHost refRC Map.empty") simp_all
  then have "\<forall>env2. withGithubEnv refHost refRC env2 = Inl ?p"
    using withGithubEnv_idempotent [of refHost refRC Map.empty] by blast
  then have q: "withGithubEnv refHost refRC [''CI'' \<mapsto> ''false''] = Inl ?p"
    by (rule spec)
  show ?thesis using a p q by (intro conjI)
qed

subsection \<open>The expression gate\<close>

lemma EvalBool_loop_stop: "\<not> i < length parts \<Longrightarrow> EvalBool_loop pt ee parts i acc = acc"
  by (subst EvalBool_loop.simps) simp

lemma EvalBool_loop_step:
  "i < length parts \<Longrightarrow>
   EvalBool_loop pt ee parts i acc
     = EvalBool_loop pt ee parts (Suc i) (acc @ [EvalBool_part pt ee parts i])"
  by (subst EvalBool_loop.simps) (simp add: EvalBool_part_def Let_def split: prod.splits)

lemma EvalBool_loop_map:
  "EvalBool_loop pt ee parts i acc = acc @ map (EvalBool_part pt ee parts) [i..<length parts]"
proof (induction "length parts - i" arbitrary: i acc)
  case 0
  then have "\<not> i < length parts" by simp
  then show ?case by (simp add: EvalBool_loop_stop)
next
  case (Suc n)
  then have lt: "i < length parts" and n: "n = length parts - Suc i" by simp_all
  have "EvalBool_loop pt ee parts i acc
      = EvalBool_loop pt ee parts (Suc i) (acc @ [EvalBool_part pt ee parts i])"
    using lt by (rule EvalBool_loop_step)
  also have "\<dots> = (acc @ [EvalBool_part pt ee parts i])
      @ map (EvalBool_part pt ee parts) [Suc i..<length parts]"
    using n by (rule Suc.hyps(1))
  also have "\<dots> = acc @ map (EvalBool_part pt ee parts) [i..<length parts]"
    using lt by (simp add: upt_conv_Cons)
  finally show ?case .
qed

text \<open>
  Claim C3. For an expression that is not empty and does not begin with \<open>!\<close>,
  \<open>EvalBool\<close> evaluates \<open>Boolean(...)\<close> of the strings its loop produces, joined by
  spaces, one string per token. A token that matches the operator pattern is passed
  through and is not interpolated. For any other token the string is its interpolation,
  put between single quotes if and only if the token matches the expression pattern,
  contains no \<open>!\<close>, its interpolation is the string \<open>false\<close>, and
  \<open>InterpolateWithStringCheck\<close> reported a string or the token just before or just
  after it matches the operator pattern.
\<close>

theorem EvalBool_quoting:
  assumes "i < length parts"
  shows "length (EvalBool_loop pt ee parts 0 []) = length parts
   \<and> EvalBool_loop pt ee parts 0 [] ! i =
       (if operatorPattern pt (parts ! i) then parts ! i
        else if expressionPattern pt (parts ! i)
                \<and> CHR ''!'' \<notin> set (parts ! i)
                \<and> fst (InterpolateWithStringCheck ee (parts ! i)) = ''false''
                \<and> (snd (InterpolateWithStringCheck ee (parts ! i))
                     \<or> (0 < i \<and> operatorPattern pt (parts ! (i - 1)))
                     \<or> (i + 1 < length parts \<and> operatorPattern pt (parts ! (i + 1))))
             then [CHR 0x27] @ fst (InterpolateWithStringCheck ee (parts ! i)) @ [CHR 0x27]
             else fst (InterpolateWithStringCheck ee (parts ! i)))
   \<and> (\<forall>expr. expr \<noteq> '''' \<and> \<not> HasPrefix (TrimSpace expr) ''!'' \<and> splitPattern pt expr = parts
         \<longrightarrow> EvalBool pt ee expr =
               (case Evaluate ee (''Boolean('' @ Join (EvalBool_loop pt ee parts 0 []) '' '' @ '')'') of
                  Inl e \<Rightarrow> Inl e
                | Inr v \<Rightarrow> Inr (v = ''true'')))"
proof -
  have all: "EvalBool_loop pt ee parts 0 [] = map (EvalBool_part pt ee parts) [0..<length parts]"
    by (simp add: EvalBool_loop_map)
  then have len: "length (EvalBool_loop pt ee parts 0 []) = length parts"
    by simp
  have "EvalBool_loop pt ee parts 0 [] ! i = EvalBool_part pt ee parts i"
    using assms by (simp add: all)
  also have "\<dots> =
       (if operatorPattern pt (parts ! i) then parts ! i
        else if expressionPattern pt (parts ! i)
                \<and> CHR ''!'' \<notin> set (parts ! i)
                \<and> fst (InterpolateWithStringCheck ee (parts ! i)) = ''false''
                \<and> (snd (InterpolateWithStringCheck ee (parts ! i))
                     \<or> (0 < i \<and> operatorPattern pt (parts ! (i - 1)))
                     \<or> (i + 1 < length parts \<and> operatorPattern pt (parts ! (i + 1))))
             then [CHR 0x27] @ fst (InterpolateWithStringCheck ee (parts ! i)) @ [CHR 0x27]
             else fst (InterpolateWithStringCheck ee (parts ! i)))"
    by (cases "InterpolateWithStringCheck ee (parts ! i)")
       (auto simp: EvalBool_part_def previousOrNextPartIsAnOperator_def Let_def)
  finally have nth: "EvalBool_loop pt ee parts 0 [] ! i =
       (if operatorPattern pt (parts ! i) then parts ! i
        else if expressionPattern pt (parts ! i)
                \<and> CHR ''!'' \<notin> set (parts ! i)
                \<and> fst (InterpolateWithStringCheck ee (parts ! i)) = ''false''
                \<and> (snd (InterpolateWithStringCheck ee (parts ! i))
                     \<or> (0 < i \<and> operatorPattern pt (parts ! (i - 1)))
                     \<or> (i + 1 < length parts \<and> operatorPattern pt (parts ! (i + 1))))
             then [CHR 0x27] @ fst (InterpolateWithStringCheck ee (parts ! i)) @ [CHR 0x27]
             else fst (InterpolateWithStringCheck ee (parts ! i)))" .
  have gate: "EvalBool pt ee expr =
               (case Evaluate ee (''Boolean('' @ Join (EvalBool_loop pt ee parts 0 []) '' '' @ '')'') of
                  Inl e \<Rightarrow> Inl e
                | Inr v \<Rightarrow> Inr (v = ''true''))"
    if "expr \<noteq> '''' \<and> \<not> HasPrefix (TrimSpace expr) ''!'' \<and> splitPattern pt expr = parts" for expr
    using that by (simp add: EvalBool_def Let_def)
  show ?thesis
    using len nth gate by (intro conjI allI impI)
qed

theorem EvalBool_quoting_witness:
  "(0::nat) < length [''${{env.FLAG}}'', ''=='', ''false'']
   \<and> splitPattern examplePatterns ''${{env.FLAG}} == false'' = [''${{env.FLAG}}'', ''=='', ''false'']
   \<and> EvalBool_loop examplePatterns flagEvaluator [''${{env.FLAG}}'', ''=='', ''false''] 0 [] ! 0
       = [CHR 0x27] @ ''false'' @ [CHR 0x27]
   \<and> EvalBool_loop examplePatterns flagEvaluator [''${{env.FLAG}}'', ''=='', ''false''] 0 [] ! 1
       = ''==''
   \<and> EvalBool_loop examplePatterns flagEvaluator [''${{env.FLAG}}''] 0 [] ! 0 = ''false''
   \<and> EvalBool examplePatterns flagEvaluator ''${{env.FLAG}} == false''
       = (case Evaluate flagEvaluator
                 (''Boolean('' @ Join (EvalBool_loop examplePatterns flagEvaluator
                                        [''${{env.FLAG}}'', ''=='', ''false''] 0 []) '' '' @ '')'') of
            Inl e \<Rightarrow> Inl e
          | Inr v \<Rightarrow> Inr (v = ''true''))"
proof -
  let ?parts = "[''${{env.FLAG}}'', ''=='', ''false'']"
  let ?expr = "''${{env.FLAG}} == false''"
  note th0 = EvalBool_quoting [of 0 ?parts examplePatterns flagEvaluator]
  have split: "splitPattern examplePatterns ?expr = ?parts"
    by (simp add: examplePatterns_def)
  have trim: "\<not> HasPrefix (TrimSpace ?expr) ''!''"
    by (simp add: TrimSpace_def spaceRunes_def)
  have 0: "EvalBool_loop examplePatterns flagEvaluator ?parts 0 [] ! 0
       = [CHR 0x27] @ ''false'' @ [CHR 0x27]"
    using th0 by (simp add: examplePatterns_def flagEvaluator_def)
  have 1: "EvalBool_loop examplePatterns flagEvaluator ?parts 0 [] ! 1 = ''==''"
    using EvalBool_quoting [of 1 ?parts examplePatterns flagEvaluator]
    by (simp add: examplePatterns_def flagEvaluator_def)
  have 2: "EvalBool_loop examplePatterns flagEvaluator [''${{env.FLAG}}''] 0 [] ! 0 = ''false''"
    using EvalBool_quoting [of 0 "[''${{env.FLAG}}'']" examplePatterns flagEvaluator]
    by (simp add: examplePatterns_def flagEvaluator_def)
  have pre: "?expr \<noteq> '''' \<and> \<not> HasPrefix (TrimSpace ?expr) ''!''
      \<and> splitPattern examplePatterns ?expr = ?parts"
    using split trim by simp
  have "\<forall>expr. expr \<noteq> '''' \<and> \<not> HasPrefix (TrimSpace expr) ''!''
        \<and> splitPattern examplePatterns expr = ?parts
         \<longrightarrow> EvalBool examplePatterns flagEvaluator expr =
               (case Evaluate flagEvaluator
                   (''Boolean('' @ Join (EvalBool_loop examplePatterns flagEvaluator ?parts 0 []) '' '' @ '')'') of
                  Inl e \<Rightarrow> Inl e
                | Inr v \<Rightarrow> Inr (v = ''true''))"
    using th0 by simp
  then have 3: "EvalBool examplePatterns flagEvaluator ?expr =
               (case Evaluate flagEvaluator
                   (''Boolean('' @ Join (EvalBool_loop examplePatterns flagEvaluator ?parts 0 []) '' '' @ '')'') of
                  Inl e \<Rightarrow> Inl e
                | Inr v \<Rightarrow> Inr (v = ''true''))"
    using pre by blast
  show ?thesis using split 0 1 2 3 by (intro conjI) simp_all
qed

subsection \<open>The step dispatcher\<close>

lemma ExprEval_enterStep: "ExprEval (enterStep step rc) = ExprEval rc"
  by (simp add: enterStep_def Let_def)

lemma CurrentStep_enterStep: "CurrentStep (enterStep step rc) = ID step"
  by (simp add: enterStep_def Let_def)

lemma stepsMap_enterStep:
  "stepsMap (enterStep step rc) (ID step) = Some \<lparr>Success = True, Outputs = Some Map.empty\<rparr>"
  by (simp add: enterStep_def Let_def stepsMap_def getStepsContext_def)

lemma setSuccess_present:
  assumes "stepsMap rc (CurrentStep rc) = Some r"
  shows "\<exists>rc'. setSuccess rc b = Inr rc' \<and> stepsMap rc' (CurrentStep rc) = Some (r\<lparr>Success := b\<rparr>)
           \<and> CurrentStep rc' = CurrentStep rc"
  using assms by (simp add: setSuccess_def stepsMap_def getStepsContext_def)

lemma stepsMap_ExprEval: "stepsMap (rc\<lparr>ExprEval := e\<rparr>) = stepsMap rc"
  by (simp add: stepsMap_def getStepsContext_def split: option.splits)

lemma newStepExecutor_run:
  assumes "EvalBool pt (ExprEval rc) (IfValue step) = Inr True"
    and "setupEnv eng step ctx (enterStep step rc) = (Inr ee, rc1)"
    and "stepExecutor eng step ctx (rc1\<lparr>ExprEval := ee\<rparr>) = (Some msg, rc2)"
  shows "newStepExecutor pt eng step ctx rc =
     (if ContinueOnError step then
        (case setSuccess rc2 True of Inl p \<Rightarrow> (Some p, rc2) | Inr rc3 \<Rightarrow> (None, rc3))
      else
        (case setSuccess rc2 False of Inl p \<Rightarrow> (Some p, rc2) | Inr rc3 \<Rightarrow> (Some (Err msg), rc3)))"
  using assms by (simp add: newStepExecutor_def Let_def ExprEval_enterStep)

text \<open>
  Claim C4. Take a step whose \<open>if:\<close> evaluates to true, whose \<open>setupEnv\<close> succeeds
  and whose executor fails with an error, the step engine leaving \<open>CurrentStep\<close> and the
  entry of the step in \<open>StepResults\<close> in place. With \<open>ContinueOnError\<close> the step executor
  returns nil and \<open>Success\<close> of the entry is true; a pipeline then goes on with the
  steps that follow, from the run context the step left, when the context is not
  cancelled, and under a cancelled context it ends with \<open>context canceled\<close> before the
  step that follows. Without \<open>ContinueOnError\<close> the entry has \<open>Success\<close> false, the error
  is returned, and a pipeline ends with that error.
\<close>

theorem newStepExecutor_ContinueOnError:
  assumes "EvalBool pt (ExprEval rc) (IfValue step) = Inr True"
    and "setupEnv eng step ctx (enterStep step rc) = (Inr ee, rc1)"
    and "stepExecutor eng step ctx (rc1\<lparr>ExprEval := ee\<rparr>) = (Some msg, rc2)"
    and "CurrentStep rc2 = ID step"
    and "stepsMap rc2 (ID step) = Some r"
  shows "(ContinueOnError step \<longrightarrow>
            (\<exists>rc'. newStepExecutor pt eng step ctx rc = (None, rc')
                 \<and> stepsMap rc' (ID step) = Some (r\<lparr>Success := True\<rparr>)
                 \<and> (\<forall>rest. NewPipelineExecutor (newStepExecutor pt eng step # rest) ctx rc
                            = (if Cancelled ctx \<and> rest \<noteq> []
                               then (Some (Err ''context canceled''), rc')
                               else NewPipelineExecutor rest ctx rc'))))
       \<and> (\<not> ContinueOnError step \<longrightarrow>
            (\<exists>rc'. newStepExecutor pt eng step ctx rc = (Some (Err msg), rc')
                 \<and> stepsMap rc' (ID step) = Some (r\<lparr>Success := False\<rparr>)
                 \<and> (\<forall>rest. NewPipelineExecutor (newStepExecutor pt eng step # rest) ctx rc
                            = (Some (Err msg), rc'))))"
proof -
  note run = newStepExecutor_run [OF assms(1,2,3)]
  have present: "stepsMap rc2 (CurrentStep rc2) = Some r"
    using assms(4,5) by simp
  show ?thesis
  proof (cases "ContinueOnError step")
    case True
    obtain rc' where s: "setSuccess rc2 True = Inr rc'"
      and m: "stepsMap rc' (CurrentStep rc2) = Some (r\<lparr>Success := True\<rparr>)"
      using setSuccess_present [OF present, of True] by blast
    have r: "newStepExecutor pt eng step ctx rc = (None, rc')"
      using run True s by simp
    have "NewPipelineExecutor (newStepExecutor pt eng step # rest) ctx rc
            = (if Cancelled ctx \<and> rest \<noteq> []
               then (Some (Err ''context canceled''), rc')
               else NewPipelineExecutor rest ctx rc')" for rest
      using r by (cases rest) (simp_all add: Then_def)
    then show ?thesis using True r m assms(4) by auto
  next
    case False
    obtain rc' where s: "setSuccess rc2 False = Inr rc'"
      and m: "stepsMap rc' (CurrentStep rc2) = Some (r\<lparr>Success := False\<rparr>)"
      using setSuccess_present [OF present, of False] by blast
    have r: "newStepExecutor pt eng step ctx rc = (Some (Err msg), rc')"
      using run False s by simp
    have "NewPipelineExecutor (newStepExecutor pt eng step # rest) ctx rc
            = (Some (Err msg), rc')" for rest
      using r by (cases rest) (simp_all add: Then_def)
    then show ?thesis using False r m assms(4) by auto
  qed
qed

lemma EvalBool_empty: "EvalBool pt ee '''' = Inr True"
  by (simp add: EvalBool_def TrimSpace_def)

lemma exampleEngine_runs:
  assumes "IfValue s = ''''"
  shows "EvalBool examplePatterns (ExprEval exampleRC) (IfValue s) = Inr True"
    and "setupEnv exampleEngine s ctx (enterStep s exampleRC)
           = (Inr flagEvaluator, enterStep s exampleRC)"
    and "stepExecutor exampleEngine s ctx ((enterStep s exampleRC)\<lparr>ExprEval := flagEvaluator\<rparr>)
           = (Some ''exit status 1'', (enterStep s exampleRC)\<lparr>ExprEval := flagEvaluator\<rparr>)"
    and "CurrentStep ((enterStep s exampleRC)\<lparr>ExprEval := flagEvaluator\<rparr>) = ID s"
    and "stepsMap ((enterStep s exampleRC)\<lparr>ExprEval := flagEvaluator\<rparr>) (ID s)
           = Some \<lparr>Success = True, Outputs = Some Map.empty\<rparr>"
  using assms stepsMap_enterStep [of s exampleRC]
  by (simp_all add: EvalBool_empty exampleEngine_def CurrentStep_enterStep stepsMap_ExprEval)

lemma deployStep_runs:
  "case newStepExecutor examplePatterns exampleEngine failingStep liveContext exampleRC of
     (r, rc') \<Rightarrow>
       (case newStepExecutor examplePatterns exampleEngine deployStep liveContext rc' of
          (r', rc'') \<Rightarrow>
            r = None \<and> r' = Some (Err ''exit status 1'')
            \<and> map_option Success (stepsMap rc'' ''test'') = Some True
            \<and> map_option Success (stepsMap rc'' ''deploy'') = Some False)"
  by code_simp

theorem newStepExecutor_ContinueOnError_witness:
  "ContinueOnError failingStep
   \<and> (\<exists>rc'. newStepExecutor examplePatterns exampleEngine failingStep exampleContext exampleRC = (None, rc')
         \<and> map_option Success (stepsMap rc' ''test'') = Some True)
   \<and> \<not> ContinueOnError (failingStep\<lparr>ContinueOnError := False\<rparr>)
   \<and> (\<exists>rc'. newStepExecutor examplePatterns exampleEngine (failingStep\<lparr>ContinueOnError := False\<rparr>)
               exampleContext exampleRC = (Some (Err ''exit status 1''), rc')
         \<and> map_option Success (stepsMap rc' ''test'') = Some False)
   \<and> \<not> Cancelled liveContext
   \<and> (\<exists>rc'. NewPipelineExecutor
               [newStepExecutor examplePatterns exampleEngine failingStep,
                newStepExecutor examplePatterns exampleEngine deployStep] liveContext exampleRC
             = (Some (Err ''exit status 1''), rc')
         \<and> map_option Success (stepsMap rc' ''test'') = Some True
         \<and> map_option Success (stepsMap rc' ''deploy'') = Some False)"
proof -
  have id: "ID failingStep = ''test''" "IfValue failingStep = ''''" "ContinueOnError failingStep"
    by (simp_all add: failingStep_def)
  let ?s = "failingStep\<lparr>ContinueOnError := False\<rparr>"
  have id': "ID ?s = ''test''" "IfValue ?s = ''''" "\<not> ContinueOnError ?s"
    by (simp_all add: failingStep_def)
  have live: "\<not> Cancelled liveContext"
    by (simp add: liveContext_def)
  have a: "\<exists>rc'. newStepExecutor examplePatterns exampleEngine failingStep exampleContext exampleRC = (None, rc')
         \<and> map_option Success (stepsMap rc' ''test'') = Some True"
    using newStepExecutor_ContinueOnError [OF exampleEngine_runs [OF id(2)], of exampleContext] id
    by auto
  have b: "\<exists>rc'. newStepExecutor examplePatterns exampleEngine ?s exampleContext exampleRC
                 = (Some (Err ''exit status 1''), rc')
         \<and> map_option Success (stepsMap rc' ''test'') = Some False"
    using newStepExecutor_ContinueOnError [OF exampleEngine_runs [OF id'(2)], of exampleContext] id'
    by auto
  obtain rc' where
    one: "newStepExecutor examplePatterns exampleEngine failingStep liveContext exampleRC = (None, rc')"
    and pipe: "\<forall>rest. NewPipelineExecutor
                        (newStepExecutor examplePatterns exampleEngine failingStep # rest)
                        liveContext exampleRC
                 = (if Cancelled liveContext \<and> rest \<noteq> []
                    then (Some (Err ''context canceled''), rc')
                    else NewPipelineExecutor rest liveContext rc')"
    using newStepExecutor_ContinueOnError [OF exampleEngine_runs [OF id(2)], of liveContext] id(3)
    by blast
  have two: "NewPipelineExecutor
               [newStepExecutor examplePatterns exampleEngine failingStep,
                newStepExecutor examplePatterns exampleEngine deployStep] liveContext exampleRC
             = newStepExecutor examplePatterns exampleEngine deployStep liveContext rc'"
    using spec [OF pipe, of "[newStepExecutor examplePatterns exampleEngine deployStep]"] live
    by simp
  have c: "\<exists>rc''. NewPipelineExecutor
               [newStepExecutor examplePatterns exampleEngine failingStep,
                newStepExecutor examplePatterns exampleEngine deployStep] liveContext exampleRC
             = (Some (Err ''exit status 1''), rc'')
         \<and> map_option Success (stepsMap rc'' ''test'') = Some True
         \<and> map_option Success (stepsMap rc'' ''deploy'') = Some False"
    using deployStep_runs one two by (auto split: prod.splits)
  show ?thesis using a b c id(3) id'(3) live by (intro conjI)
qed

text \<open>
  A cancelled context: the step \<open>test\<close> fails and declares \<open>ContinueOnError\<close>, the step
  executor returns nil and the entry stays successful, yet the pipeline ends with
  \<open>context canceled\<close> and the step \<open>deploy\<close> that follows is never entered: it has no
  entry in \<open>StepResults\<close>.
\<close>

theorem newStepExecutor_ContinueOnError_counterexample:
  "Cancelled exampleContext \<and> ContinueOnError failingStep
   \<and> fst (newStepExecutor examplePatterns exampleEngine failingStep exampleContext exampleRC) = None
   \<and> (case NewPipelineExecutor
              [newStepExecutor examplePatterns exampleEngine failingStep,
               newStepExecutor examplePatterns exampleEngine deployStep] exampleContext exampleRC of
         (r, rc') \<Rightarrow>
           r = Some (Err ''context canceled'')
           \<and> map_option Success (stepsMap rc' ''test'') = Some True
           \<and> stepsMap rc' ''deploy'' = None)"
  by code_simp

text \<open>
  What the step executor does when the evaluation of \<open>if:\<close> fails: it runs
  \<open>setupEnv\<close>; when that fails too, its error is returned and the step stays
  successful; when it succeeds, \<open>ExprEval\<close> is bound, the step is marked failed and nil
  is returned: the error of the evaluation never reaches the caller.
\<close>

lemma newStepExecutor_if_error:
  assumes "EvalBool pt (ExprEval rc) (IfValue step) = Inl e"
  shows "newStepExecutor pt eng step ctx rc =
     (case setupEnv eng step ctx (enterStep step rc) of
        (Inl err', rc1) \<Rightarrow> (Some (Err err'), rc1)
      | (Inr exprEval, rc1) \<Rightarrow>
          (case setSuccess (rc1\<lparr>ExprEval := exprEval\<rparr>) False of
             Inl p \<Rightarrow> (Some p, rc1\<lparr>ExprEval := exprEval\<rparr>)
           | Inr rc2 \<Rightarrow> (None, rc2)))"
  using assms by (simp add: newStepExecutor_def Let_def ExprEval_enterStep)

lemma newStepExecutor_if_error_returns_nil:
  assumes "EvalBool pt (ExprEval rc) (IfValue step) = Inl e"
    and "setupEnv eng step ctx (enterStep step rc) = (Inr ee, rc1)"
    and "CurrentStep rc1 = ID step"
    and "stepsMap rc1 (ID step) = Some r"
  shows "\<exists>rc'. newStepExecutor pt eng step ctx rc = (None, rc')
           \<and> stepsMap rc' (ID step) = Some (r\<lparr>Success := False\<rparr>)"
proof -
  let ?rc = "rc1\<lparr>ExprEval := ee\<rparr>"
  have "stepsMap ?rc (CurrentStep ?rc) = Some r"
    using assms(3,4) by (simp add: stepsMap_ExprEval)
  then obtain rc' where s: "setSuccess ?rc False = Inr rc'"
    and m: "stepsMap rc' (CurrentStep ?rc) = Some (r\<lparr>Success := False\<rparr>)"
    using setSuccess_present [of ?rc r False] by blast
  have "newStepExecutor pt eng step ctx rc = (None, rc')"
    using assms(1,2) s by (simp add: newStepExecutor_if_error)
  then show ?thesis using m assms(3) by auto
qed

text \<open>
  Claim C1 at a step with \<open>if: !failure()\<close>: \<open>EvalBool\<close> returns its error, the step
  executor returns nil and the step is marked failed; with a \<open>setupEnv\<close> that fails,
  the error of \<open>setupEnv\<close> is returned and the step is not marked failed.
\<close>

theorem newStepExecutor_if_error_example:
  "EvalBool examplePatterns (ExprEval exampleRC) (IfValue negatedStep)
     = Inl (Err ''expressions starting with ! must be wrapped in ${{ }}'')
   \<and> fst (newStepExecutor examplePatterns exampleEngine negatedStep exampleContext exampleRC) = None
   \<and> map_option Success
        (stepsMap (snd (newStepExecutor examplePatterns exampleEngine negatedStep exampleContext exampleRC))
           ''lint'') = Some False
   \<and> fst (newStepExecutor examplePatterns brokenSetupEngine negatedStep exampleContext exampleRC)
       = Some (Err ''cannot read the image environment'')
   \<and> map_option Success
        (stepsMap (snd (newStepExecutor examplePatterns brokenSetupEngine negatedStep exampleContext exampleRC))
           ''lint'') = Some True"
  by code_simp

end
